theory Spec2Isabelle
  imports Complex_Main "HOL-Library.Multiset"
begin

section \<open>The insect song learning game: a shallow embedding of game.js\<close>

text \<open>
  The game logic of \<^verbatim>\<open>game.js\<close> is a set of functions over a handful of ambient
  variables. Here those variables are the fields of one record that every operation
  takes and returns. Writes to the page (labels, images, audio) are left out, except for
  two properties that the game logic itself sets and that decide what the player can do
  next: whether the "next" button is disabled and whether the end overlay is shown. Both
  are modelled for a page on which these two elements exist.
\<close>

subsection \<open>Strings and species records\<close>

text \<open>
  A JavaScript string is a sequence of UTF-16 code units, and \<^verbatim>\<open>length\<close> counts
  code units. A property of an object may be absent (\<^verbatim>\<open>undefined\<close>), which is
  \<open>None\<close>; \<^verbatim>\<open>===\<close> on two such values is equality of options.
\<close>

type_synonym jschar = nat
type_synonym jsstring = "jschar list"

definition js :: "string \<Rightarrow> jsstring" where
  "js s = map of_char s"

text \<open>The fields the game logic reads; media paths and credits are only rendered.\<close>

record song =
  commonName :: "jsstring option"
  species :: "jsstring option"
  region :: "jsstring option"
  fact :: "jsstring option"

text \<open>Truthiness of a string-or-undefined value: \<^verbatim>\<open>Boolean(x)\<close>, \<^verbatim>\<open>!!x\<close>.\<close>

fun truthy :: "jsstring option \<Rightarrow> bool" where
  "truthy None = False"
| "truthy (Some s) = (s \<noteq> [])"

subsection \<open>Configuration\<close>

definition TOTAL_ROUNDS :: nat where
  "TOTAL_ROUNDS = 5"

definition MODES_SPECTRO :: jsstring where
  "MODES_SPECTRO = js ''spectrogram''"

definition MODES_IMAGE :: jsstring where
  "MODES_IMAGE = js ''image''"

definition MODES_FACTS :: jsstring where
  "MODES_FACTS = js ''facts''"

subsection \<open>Utilities\<close>

text \<open>
  \<^verbatim>\<open>shuffle\<close> pairs every element with a fresh \<^verbatim>\<open>Math.random()\<close>, sorts the pairs
  by that key with the comparator \<^verbatim>\<open>a.r - b.r\<close> and drops the keys. The random
  source is a parameter: \<open>rnd i\<close> is the key drawn for the element at index \<open>i\<close>.
  \<^verbatim>\<open>Array.prototype.sort\<close> is stable, as \<open>sort_key\<close> is.
\<close>

type_synonym rng = "nat \<Rightarrow> real"

definition shuffle :: "rng \<Rightarrow> 'a list \<Rightarrow> 'a list" where
  "shuffle rnd arr = map fst (sort_key snd (zip arr (map rnd [0..<length arr])))"

text \<open>\<^verbatim>\<open>getRegionPool\<close>: a falsy region (\<^verbatim>\<open>null\<close> or the empty string) means all songs.\<close>

definition getRegionPool :: "song list \<Rightarrow> jsstring option \<Rightarrow> song list" where
  "getRegionPool SONGS cr =
     (if \<not> truthy cr then SONGS else filter (\<lambda>s. region s = cr) SONGS)"

subsection \<open>Session state\<close>

record game =
  currentMode :: jsstring
  currentRegion :: "jsstring option"
  sessionSongs :: "song list"
  sessionIndex :: nat
  currentSong :: "song option"
  roundsAnswered :: nat
  scoreCorrect :: nat
  hasAnswered :: bool
  hadWrongGuess :: bool
  nextBtnDisabled :: bool
  endOverlayShown :: bool

text \<open>The values the script gives its variables when it is loaded.\<close>

definition initial :: "game \<Rightarrow> bool" where
  "initial s \<longleftrightarrow>
     currentMode s = MODES_SPECTRO \<and> currentRegion s = None \<and> sessionSongs s = [] \<and>
     sessionIndex s = 0 \<and> currentSong s = None \<and> roundsAnswered s = 0 \<and>
     scoreCorrect s = 0 \<and> \<not> hasAnswered s \<and> \<not> hadWrongGuess s"

subsection \<open>Rounds\<close>

text \<open>
  \<^verbatim>\<open>buildChoices\<close>: the names of the region pool without the falsy ones, the correct
  name removed, three of the rest after a shuffle, and the correct name put back before
  a second shuffle.
\<close>

definition buildChoices ::
  "rng \<Rightarrow> rng \<Rightarrow> song list \<Rightarrow> jsstring option \<Rightarrow> jsstring option \<Rightarrow> jsstring option list" where
  "buildChoices rnd1 rnd2 SONGS cr correctName =
     (let pool = filter truthy (map commonName (getRegionPool SONGS cr));
          others = filter (\<lambda>n. n \<noteq> correctName) pool;
          wrong = take 3 (shuffle rnd1 others)
      in shuffle rnd2 (correctName # wrong))"

text \<open>
  \<^verbatim>\<open>renderRound\<close> assigns \<^verbatim>\<open>currentSong\<close> before it tests it, so a read past the end
  of \<^verbatim>\<open>sessionSongs\<close> leaves \<^verbatim>\<open>undefined\<close> there and returns.
\<close>

definition renderRound :: "game \<Rightarrow> game" where
  "renderRound s =
     (if sessionSongs s = [] then s
      else
        let cs = (if sessionIndex s < length (sessionSongs s)
                  then Some (sessionSongs s ! sessionIndex s) else None);
            s1 = s\<lparr>currentSong := cs\<rparr>
        in if cs = None then s1
           else s1\<lparr>hasAnswered := False, hadWrongGuess := False, nextBtnDisabled := True\<rparr>)"

subsection \<open>Answering and the end of the game\<close>

definition showEndOverlay :: "game \<Rightarrow> game" where
  "showEndOverlay s = s\<lparr>endOverlayShown := True\<rparr>"

definition hideEndOverlay :: "game \<Rightarrow> game" where
  "hideEndOverlay s = s\<lparr>endOverlayShown := False\<rparr>"

definition handleAnswer :: "song option \<Rightarrow> game \<Rightarrow> game" where
  "handleAnswer songObj s =
     (case (currentSong s, songObj) of
        (Some cur, Some obj) \<Rightarrow>
          if hasAnswered s then s
          else if commonName obj \<noteq> commonName cur then
            (if \<not> hadWrongGuess s then s\<lparr>hadWrongGuess := True\<rparr> else s)
          else
            let s1 = s\<lparr>hasAnswered := True, roundsAnswered := roundsAnswered s + 1\<rparr>;
                s2 = (if \<not> hadWrongGuess s1
                      then s1\<lparr>scoreCorrect := scoreCorrect s1 + 1\<rparr> else s1)
            in if roundsAnswered s2 \<ge> TOTAL_ROUNDS
               then showEndOverlay (s2\<lparr>nextBtnDisabled := True\<rparr>)
               else s2\<lparr>nextBtnDisabled := False\<rparr>
      | _ \<Rightarrow> s)"

definition goToNextRound :: "game \<Rightarrow> game" where
  "goToNextRound s =
     (if \<not> hasAnswered s then s
      else if roundsAnswered s \<ge> TOTAL_ROUNDS then s
      else
        let s1 = s\<lparr>sessionIndex := sessionIndex s + 1\<rparr>
        in if sessionIndex s1 < length (sessionSongs s1) then renderRound s1 else s1)"

subsection \<open>Game flow\<close>

definition startNewGame :: "rng \<Rightarrow> song list \<Rightarrow> game \<Rightarrow> game" where
  "startNewGame rnd SONGS s =
     (let pool = getRegionPool SONGS (currentRegion s)
      in if pool = [] then s
         else renderRound
           (s\<lparr>sessionSongs := take TOTAL_ROUNDS (shuffle rnd pool),
              sessionIndex := 0, roundsAnswered := 0, scoreCorrect := 0,
              hasAnswered := False, hadWrongGuess := False, nextBtnDisabled := True\<rparr>))"

definition setModeAndStart :: "rng \<Rightarrow> song list \<Rightarrow> jsstring \<Rightarrow> game \<Rightarrow> game" where
  "setModeAndStart rnd SONGS mode s = startNewGame rnd SONGS (s\<lparr>currentMode := mode\<rparr>)"

text \<open>The listener of a region button: set the region, then start a new game.\<close>

definition chooseRegion :: "rng \<Rightarrow> song list \<Rightarrow> jsstring option \<Rightarrow> game \<Rightarrow> game" where
  "chooseRegion rnd SONGS r s = startNewGame rnd SONGS (s\<lparr>currentRegion := r\<rparr>)"

text \<open>
  The states the page can be in: the loaded script, then any sequence of clicks. Answers
  and regions are arbitrary here, which covers every button the page can build.
\<close>

inductive reachable :: "song list \<Rightarrow> game \<Rightarrow> bool" for SONGS :: "song list" where
  loaded: "initial s \<Longrightarrow> reachable SONGS s"
| answer: "reachable SONGS s \<Longrightarrow> reachable SONGS (handleAnswer songObj s)"
| advance: "reachable SONGS s \<Longrightarrow> reachable SONGS (goToNextRound s)"
| again: "reachable SONGS s \<Longrightarrow> reachable SONGS (startNewGame rnd SONGS (hideEndOverlay s))"
| pickRegion: "reachable SONGS s \<Longrightarrow> reachable SONGS (chooseRegion rnd SONGS r s)"
| pickMode: "reachable SONGS s \<Longrightarrow> reachable SONGS (setModeAndStart rnd SONGS m s)"
| dismiss: "reachable SONGS s \<Longrightarrow> reachable SONGS (hideEndOverlay s)"

subsection \<open>End-of-game messages\<close>

text \<open>\<^verbatim>\<open>endMessage(score, mode)\<close>: one \<^verbatim>\<open>switch\<close> per mode, whose default is the case 5.\<close>

definition endMessage :: "nat \<Rightarrow> jsstring \<Rightarrow> jsstring" where
  "endMessage score mode =
     (if mode = MODES_SPECTRO then
        (if score = 0 then js ''You need to clean your ears. Play again...''
         else if score = 1 then js ''You need to learn to listen. Play again...''
         else if score = 2 then js ''Almost half way there!''
         else if score = 3 then
           js ''Pretty good! Your chance of finding a mate is more than 50%!''
         else if score = 4 then js ''Impressive ears!''
         else js ''Master of insect sounds! You must be an insect sound biologist!'')
      else if mode = MODES_IMAGE then
        (if score = 0 then js ''You need new glasses. Play again...''
         else if score = 1 then js ''You need to look more closely. Play again...''
         else if score = 2 then js ''Almost half way there! Keep sharpening your eyes.''
         else if score = 3 then js ''Pretty good! Your field ID skills are waking up.''
         else if score = 4 then js ''Impressive eye for insects!''
         else js ''Master of insect identification! Your field guide game is strong!'')
      else if mode = MODES_FACTS then
        (if score = 0 then js ''You need to hit the books. Play again...''
         else if score = 1 then js ''You need to brush up your insect trivia.''
         else if score = 2 then
           js ''Almost half way there! These facts are starting to stick.''
         else if score = 3 then
           js ''Pretty good! Your insect natural history memory is solid.''
         else if score = 4 then
           js ''Impressive knowledge! You're almost a walking field guide.''
         else
           js ''Master of insect facts! You must be an insect natural history expert!'')
      else js ''Nice work!'')"

text \<open>The three modes and the six scores of a game, for the table of messages.\<close>

definition allModes :: "jsstring list" where
  "allModes = [MODES_SPECTRO, MODES_IMAGE, MODES_FACTS]"

definition messageTable :: "jsstring list" where
  "messageTable = concat (map (\<lambda>m. map (\<lambda>sc. endMessage sc m) [0, 1, 2, 3, 4, 5]) allModes)"

subsection \<open>Redaction of facts\<close>

text \<open>
  \<^verbatim>\<open>redactFact\<close> collects the strings to hide, builds one case-insensitive global regular
  expression that is the alternation of these strings (each escaped, so each alternative
  is a literal) and replaces every match by as many bullets as the match is long.

  The two Unicode tables the engine uses are parameters: \<open>canon\<close> is the case folding of
  one code unit under the \<^verbatim>\<open>i\<close> flag, \<open>lower\<close> is \<^verbatim>\<open>String.prototype.toLowerCase\<close>.
\<close>

definition bullet :: jschar where
  "bullet = 8226"

text \<open>The class \<^verbatim>\<open>\s\<close>: white space and line terminators.\<close>

definition isSpace :: "jschar \<Rightarrow> bool" where
  "isSpace c \<longleftrightarrow>
     c \<in> {9, 10, 11, 12, 13, 32, 160, 5760, 8232, 8233, 8239, 8287, 12288, 65279} \<or>
     (8192 \<le> c \<and> c \<le> 8202)"

text \<open>
  \<^verbatim>\<open>split(/\s+/)\<close>: the pieces between maximal runs of white space; a run at either end
  of the string leaves an empty piece there.
\<close>

function splitSpaces :: "jsstring \<Rightarrow> jsstring \<Rightarrow> jsstring list" where
  "splitSpaces cur [] = [cur]"
| "splitSpaces cur (c # cs) =
     (if isSpace c then cur # splitSpaces [] (dropWhile isSpace cs)
      else splitSpaces (cur @ [c]) cs)"
  by pat_completeness auto
termination
  by (relation "measure (\<lambda>(cur, text). length text)")
     (auto simp: length_dropWhile_le le_imp_less_Suc)

text \<open>\<^verbatim>\<open>replace(/-/g, " ")\<close>.\<close>

definition dashesToSpaces :: "jsstring \<Rightarrow> jsstring" where
  "dashesToSpaces t = map (\<lambda>c. if c = 45 then 32 else c) t"

definition longParts :: "jsstring \<Rightarrow> jsstring list" where
  "longParts t = filter (\<lambda>part. length part > 2) (splitSpaces [] t)"

fun startsWith :: "jsstring \<Rightarrow> jsstring \<Rightarrow> bool" where
  "startsWith text [] = True"
| "startsWith [] (p # ps) = False"
| "startsWith (c # cs) (p # ps) = (c = p \<and> startsWith cs ps)"

fun includesStr :: "jsstring \<Rightarrow> jsstring \<Rightarrow> bool" where
  "includesStr [] t = (t = [])"
| "includesStr (c # cs) t = (startsWith (c # cs) t \<or> includesStr cs t)"

definition orEmpty :: "jsstring option \<Rightarrow> jsstring" where
  "orEmpty v = (case v of None \<Rightarrow> [] | Some t \<Rightarrow> t)"

definition nameTargets :: "song \<Rightarrow> jsstring list" where
  "nameTargets sg =
     (if truthy (commonName sg) then
        (let full = orEmpty (commonName sg)
         in [full, dashesToSpaces full] @ longParts (dashesToSpaces full))
      else [])"

definition speciesTargets :: "song \<Rightarrow> jsstring list" where
  "speciesTargets sg =
     (if truthy (species sg) then longParts (orEmpty (species sg)) else [])"

definition groups :: "jsstring list" where
  "groups =
     [js ''cricket'', js ''crickets'', js ''cicada'', js ''cicadas'', js ''grasshopper'',
      js ''grasshoppers'', js ''katydid'', js ''katydids'', js ''conehead'',
      js ''coneheads'']"

definition periodicalTargets :: "(jsstring \<Rightarrow> jsstring) \<Rightarrow> song \<Rightarrow> jsstring list" where
  "periodicalTargets lower sg =
     (let commonLower = lower (orEmpty (commonName sg));
          speciesLower = lower (orEmpty (species sg))
      in if includesStr commonLower (js ''13-year'') \<or> includesStr speciesLower (js ''magicicada'')
         then [js ''13'', js ''13-year'', js ''13 year'', js ''periodical cicadas'',
               js ''periodical cicada'', js ''periodical'']
         else [])"

text \<open>Spreading a \<^verbatim>\<open>Set\<close>: every value once, in the order of its first occurrence.\<close>

fun dedupe :: "'a list \<Rightarrow> 'a list" where
  "dedupe [] = []"
| "dedupe (x # xs) = x # dedupe (filter (\<lambda>y. y \<noteq> x) xs)"

text \<open>A literal alternative matches at the head of the text, up to case folding.\<close>

fun matchesAt :: "(jschar \<Rightarrow> jschar) \<Rightarrow> jsstring \<Rightarrow> jsstring \<Rightarrow> bool" where
  "matchesAt canon [] text = True"
| "matchesAt canon (p # ps) [] = False"
| "matchesAt canon (p # ps) (c # cs) = (canon p = canon c \<and> matchesAt canon ps cs)"

text \<open>The alternatives are tried from left to right; the result is the match's length.\<close>

fun firstMatch :: "(jschar \<Rightarrow> jschar) \<Rightarrow> jsstring list \<Rightarrow> jsstring \<Rightarrow> nat option" where
  "firstMatch canon [] text = None"
| "firstMatch canon (p # ps) text =
     (if matchesAt canon p text then Some (length p) else firstMatch canon ps text)"

text \<open>
  \<^verbatim>\<open>text.replace(re, (m) => "\<bullet>".repeat(m.length))\<close> with the \<^verbatim>\<open>g\<close> flag: matches are
  found from left to right and do not overlap; after an empty match the engine copies
  one code unit and goes on.
\<close>

function replaceAll :: "(jschar \<Rightarrow> jschar) \<Rightarrow> jsstring list \<Rightarrow> jsstring \<Rightarrow> jsstring" where
  "replaceAll canon alts [] = []"
| "replaceAll canon alts (c # cs) =
     (case firstMatch canon alts (c # cs) of
        None \<Rightarrow> c # replaceAll canon alts cs
      | Some m \<Rightarrow>
          if m = 0 then c # replaceAll canon alts cs
          else replicate m bullet @ replaceAll canon alts (drop m (c # cs)))"
  by pat_completeness auto
termination
  by (relation "measure (\<lambda>(canon, alts, text). length text)") auto

definition redactFact ::
  "(jschar \<Rightarrow> jschar) \<Rightarrow> (jsstring \<Rightarrow> jsstring) \<Rightarrow> song option \<Rightarrow> jsstring" where
  "redactFact canon lower songOpt =
     (case songOpt of
        None \<Rightarrow> []
      | Some sg \<Rightarrow>
          if \<not> truthy (fact sg) then []
          else
            let text = orEmpty (fact sg);
                targets = nameTargets sg @ speciesTargets sg @ groups @
                          periodicalTargets lower sg;
                escaped = dedupe (filter (\<lambda>t. t \<noteq> []) targets)
            in if escaped = [] then text else replaceAll canon escaped text)"

text \<open>The ASCII part of the two Unicode tables, for running the model on the catalog.\<close>

definition asciiCanon :: "jschar \<Rightarrow> jschar" where
  "asciiCanon c = (if 97 \<le> c \<and> c \<le> 122 then c - 32 else c)"

definition asciiLower :: "jsstring \<Rightarrow> jsstring" where
  "asciiLower t = map (\<lambda>c. if 65 \<le> c \<and> c \<le> 90 then c + 32 else c) t"

subsection \<open>The catalog of species-data.js\<close>

definition four_spotted_tree_cricket :: song where
  "four_spotted_tree_cricket =
     \<lparr>commonName = Some (js ''Four-spotted Tree Cricket''),
      species = Some (js ''Oecanthus quadripunctatus''),
      region = Some (js ''North America''),
      fact = Some
       (js ''Four-spotted tree crickets high pitched trills from up in the trees. '' @
        js ''They amplify their songs by building tools called baffles out of '' @
        js ''leaves.'')\<rparr>"

definition swamp_cicada :: song where
  "swamp_cicada =
     \<lparr>commonName = Some (js ''Swamp Cicada''),
      species = Some (js ''Neotibicen tibicen''),
      region = Some (js ''Eastern U.S.''),
      fact = Some
       (js ''Swamp cicadas produce loud songs by vibrating a thin membrane of an '' @
        js ''organ on their abdomen called a tymbal. Their songs are so loud that '' @
        js ''they actually turn down their hearing when they sing to avoid going '' @
        js ''deaf!'')\<rparr>"

definition common_true_katydid :: song where
  "common_true_katydid =
     \<lparr>commonName = Some (js ''Common True Katydid''),
      species = Some (js ''Pterophylla camellifolia''),
      region = Some (js ''Eastern U.S. forests''),
      fact = Some
       (js ''Common true katydids produce rhythmic songs by rubbing their wings '' @
        js ''together. Unlike crickets who are righties, katydids are all lefties '' @
        js ''and rub their left wing over their right wings.'')\<rparr>"

definition meadow_grasshopper :: song where
  "meadow_grasshopper =
     \<lparr>commonName = Some (js ''Meadow Grasshopper''),
      species = Some (js ''Pseudochorthippus parallelus''),
      region = Some (js ''European grasslands''),
      fact = Some
       (js ''Male meadow grasshoppers create their percussive songs by rubbing '' @
        js ''their hind legs against hard forewings. Most grasshoppers don't '' @
        js ''actually sing, but some of the few species that do can be very easy '' @
        js ''to find.'')\<rparr>"

definition european_field_cricket :: song where
  "european_field_cricket =
     \<lparr>commonName = Some (js ''European Field Cricket''),
      species = Some (js ''Gryllus campestris''),
      region = Some (js ''European grasslands''),
      fact = Some
       (js ''Field crickets dig simple burrows and sing from the entrance. '' @
        js ''Populations of European field crickets have rapidly declined due to '' @
        js ''habitat loss. Once they disappear from an area they rarely recover. '' @
        js ''They are now the most endangered cricket in Britain and conservation '' @
        js ''efforts are underway to reintroduce them to places they have gone '' @
        js ''extinct across Europe.'')\<rparr>"

definition european_mole_cricket :: song where
  "european_mole_cricket =
     \<lparr>commonName = Some (js ''European Mole Cricket''),
      species = Some (js ''Gryllotalpa gryllotalpa''),
      region = Some (js ''Europe''),
      fact = Some
       (js ''Mole crickets are powerful diggers that build resonating burrows. '' @
        js ''These underground chambers act like acoustic amplifiers, greatly '' @
        js ''boosting the volume of their songs and showing how insects can use '' @
        js ''constructed spaces to enhance communication.'')\<rparr>"

definition thirteen_year_cicada :: song where
  "thirteen_year_cicada =
     \<lparr>commonName = Some (js ''13-year Cicada''),
      species = Some (js ''Magicicada neotredecim''),
      region = Some (js ''Midwestern U.S.''),
      fact = Some
       (js ''Periodical cicadas spend 13 years underground feeding on tree roots '' @
        js ''before emerging in synchronized, spectacular numbers. Their unusual '' @
        js ''life cycle helps them avoid predators and overwhelm ecosystems with '' @
        js ''sheer abundance.'')\<rparr>"

definition sword_bearing_conehead :: song where
  "sword_bearing_conehead =
     \<lparr>commonName = Some (js ''Sword-bearing Conehead''),
      species = Some (js ''Neoconocephalus ensiger''),
      region = Some (js ''Eastern North America''),
      fact = Some
       (js ''Conehead katydids get their name from the pointed facial cone above '' @
        js ''their mouthparts. Females have a long, sword-like ovipositor used to '' @
        js ''insert eggs into plant stems, which is the origin of the '' @
        [8220] @ js ''sword-bearing'' @ [8221] @ js '' name.'')\<rparr>"

definition SONGS_DATA :: "song list" where
  "SONGS_DATA =
     [four_spotted_tree_cricket,
      swamp_cicada,
      common_true_katydid,
      meadow_grasshopper,
      european_field_cricket,
      european_mole_cricket,
      thirteen_year_cicada,
      sword_bearing_conehead]"

subsection \<open>A session on the catalog\<close>

text \<open>The loaded page, a sequence of random keys, and the first round they lead to.\<close>

definition loadedPage :: game where
  "loadedPage =
     \<lparr>currentMode = MODES_SPECTRO, currentRegion = None, sessionSongs = [],
      sessionIndex = 0, currentSong = None, roundsAnswered = 0, scoreCorrect = 0,
      hasAnswered = False, hadWrongGuess = False, nextBtnDisabled = True,
      endOverlayShown = False\<rparr>"

definition sampleKeys :: rng where
  "sampleKeys i = real ((5 * i + 3) mod 8) / 8"

definition firstRound :: game where
  "firstRound = startNewGame sampleKeys SONGS_DATA loadedPage"

subsection \<open>The invariant of a session\<close>

definition session_ok :: "game \<Rightarrow> bool" where
  "session_ok s \<longleftrightarrow>
     scoreCorrect s \<le> roundsAnswered s \<and> roundsAnswered s \<le> TOTAL_ROUNDS \<and>
     (roundsAnswered s = TOTAL_ROUNDS \<longrightarrow> hasAnswered s)"

subsection \<open>Vocabulary for the session's life cycle\<close>

text \<open>
  The test \<^verbatim>\<open>roundsAnswered >= TOTAL_ROUNDS\<close>: under it \<^verbatim>\<open>handleAnswer\<close> shows the end
  overlay and \<^verbatim>\<open>goToNextRound\<close> refuses to advance.
\<close>

definition gameComplete :: "game \<Rightarrow> bool" where
  "gameComplete s \<longleftrightarrow> roundsAnswered s \<ge> TOTAL_ROUNDS"

text \<open>An answer to an open round, with the name of the current song or with another.\<close>

definition answersCorrectly :: "song option \<Rightarrow> game \<Rightarrow> bool" where
  "answersCorrectly songObj s =
     (case (currentSong s, songObj) of
        (Some cur, Some obj) \<Rightarrow> \<not> hasAnswered s \<and> commonName obj = commonName cur
      | _ \<Rightarrow> False)"

definition answersWrongly :: "song option \<Rightarrow> game \<Rightarrow> bool" where
  "answersWrongly songObj s =
     (case (currentSong s, songObj) of
        (Some cur, Some obj) \<Rightarrow> \<not> hasAnswered s \<and> commonName obj \<noteq> commonName cur
      | _ \<Rightarrow> False)"

text \<open>The two clicks of a running game, and a sequence of them.\<close>

datatype click = Answer "song option" | Next

fun perform :: "click \<Rightarrow> game \<Rightarrow> game" where
  "perform (Answer songObj) s = handleAnswer songObj s"
| "perform Next s = goToNextRound s"

fun clicks :: "click list \<Rightarrow> game \<Rightarrow> game" where
  "clicks [] s = s"
| "clicks (c # cs) s = clicks cs (perform c s)"

text \<open>The sample session after four rounds answered at the first try, and after the fifth.\<close>

definition fifthRound :: game where
  "fifthRound =
     clicks [Answer (Some swamp_cicada), Next, Answer (Some thirteen_year_cicada), Next,
             Answer (Some meadow_grasshopper), Next,
             Answer (Some four_spotted_tree_cricket), Next] firstRound"

definition finishedGame :: game where
  "finishedGame = handleAnswer (Some european_mole_cricket) fifthRound"





text \<open>The truthy common names of a region pool, as \<^verbatim>\<open>buildChoices\<close> collects them.\<close>

definition regionNames :: "song list \<Rightarrow> jsstring option \<Rightarrow> jsstring option list" where
  "regionNames SONGS cr = filter truthy (map commonName (getRegionPool SONGS cr))"

text \<open>A catalog entry without a fact, as a contributor may leave it.\<close>

definition factlessEntry :: song where
  "factlessEntry =
     \<lparr>commonName = Some (js ''New Insect Common Name''), species = Some (js ''Genus species''),
      region = None, fact = None\<rparr>"

text \<open>
  A round that has just been opened: there is a current song, it is not answered, and no
  wrong guess is recorded.
\<close>

definition roundFresh :: "game \<Rightarrow> bool" where
  "roundFresh s \<longleftrightarrow> currentSong s \<noteq> None \<and> \<not> hasAnswered s \<and> \<not> hadWrongGuess s"

text \<open>A click that submits another name than the current song's, and one that submits it.\<close>

fun wrongGuess :: "song \<Rightarrow> click \<Rightarrow> bool" where
  "wrongGuess cur (Answer (Some obj)) = (commonName obj \<noteq> commonName cur)"
| "wrongGuess cur (Answer None) = False"
| "wrongGuess cur Next = False"

fun rightGuess :: "song \<Rightarrow> click \<Rightarrow> bool" where
  "rightGuess cur (Answer (Some obj)) = (commonName obj = commonName cur)"
| "rightGuess cur (Answer None) = False"
| "rightGuess cur Next = False"

text \<open>
  While the session index is inside the list of songs, the rounds answered are the songs
  before the index, plus the current one once it is answered; and an open round is
  always on a song of the list.
\<close>

definition session_sync :: "game \<Rightarrow> bool" where
  "session_sync s \<longleftrightarrow>
     (sessionIndex s < length (sessionSongs s) \<longrightarrow>
        roundsAnswered s = sessionIndex s + (if hasAnswered s then 1 else 0)) \<and>
     (currentSong s \<noteq> None \<and> \<not> hasAnswered s \<longrightarrow>
        sessionIndex s < length (sessionSongs s))"

text \<open>The sample session after a wrong and a right answer in round 1, and in round 2.\<close>

definition secondRound :: game where
  "secondRound =
     clicks [Answer (Some meadow_grasshopper), Answer (Some swamp_cicada), Next] firstRound"





section \<open>Properties\<close>

subsection \<open>The shuffle permutes\<close>

lemma mset_shuffle: "mset (shuffle rnd xs) = mset xs"
proof -
  let ?ps = "zip xs (map rnd [0..<length xs])"
  have keys: "map fst ?ps = xs"
    by simp
  have "mset (shuffle rnd xs) = image_mset fst (mset ?ps)"
    by (simp add: shuffle_def)
  also have "\<dots> = mset (map fst ?ps)"
    by (simp only: mset_map)
  finally show ?thesis
    by (simp only: keys)
qed

lemma length_shuffle: "length (shuffle rnd xs) = length xs"
  by (simp add: shuffle_def)

lemma set_shuffle: "set (shuffle rnd xs) = set xs"
  using mset_shuffle [of rnd xs] by (metis set_mset_mset)

lemma distinct_shuffle: "distinct (shuffle rnd xs) = distinct xs"
  using mset_shuffle [of rnd xs] by (metis mset_eq_imp_distinct_iff)

lemma shuffle_Nil_iff: "shuffle rnd xs = [] \<longleftrightarrow> xs = []"
  using length_shuffle [of rnd xs] by (metis length_0_conv)

subsection \<open>The session invariant holds in every reachable state\<close>

lemma renderRound_counters:
  "roundsAnswered (renderRound s) = roundsAnswered s"
  "scoreCorrect (renderRound s) = scoreCorrect s"
  by (simp_all add: renderRound_def Let_def)

lemma session_ok_initial: "initial s \<Longrightarrow> session_ok s"
  by (simp add: initial_def session_ok_def TOTAL_ROUNDS_def)

lemma session_ok_handleAnswer: "session_ok s \<Longrightarrow> session_ok (handleAnswer songObj s)"
  by (auto simp: session_ok_def handleAnswer_def showEndOverlay_def Let_def TOTAL_ROUNDS_def
      split: option.splits)

lemma session_ok_goToNextRound: "session_ok s \<Longrightarrow> session_ok (goToNextRound s)"
  by (auto simp: goToNextRound_def Let_def session_ok_def renderRound_counters)

lemma session_ok_startNewGame: "session_ok s \<Longrightarrow> session_ok (startNewGame rnd SONGS s)"
  by (auto simp: startNewGame_def Let_def session_ok_def renderRound_counters TOTAL_ROUNDS_def)

lemma session_ok_hideEndOverlay: "session_ok (hideEndOverlay s) = session_ok s"
  by (simp add: session_ok_def hideEndOverlay_def)

lemma reachable_session_ok: "reachable SONGS s \<Longrightarrow> session_ok s"
proof (induction rule: reachable.induct)
  case (loaded s)
  then show ?case by (rule session_ok_initial)
next
  case (answer s songObj)
  then show ?case by (simp add: session_ok_handleAnswer)
next
  case (advance s)
  then show ?case by (simp add: session_ok_goToNextRound)
next
  case (again s rnd)
  then show ?case by (simp add: session_ok_startNewGame session_ok_hideEndOverlay)
next
  case (pickRegion s rnd r)
  have "session_ok (s\<lparr>currentRegion := r\<rparr>)"
    using pickRegion.IH by (simp add: session_ok_def)
  then show ?case by (simp add: chooseRegion_def session_ok_startNewGame)
next
  case (pickMode s rnd m)
  have "session_ok (s\<lparr>currentMode := m\<rparr>)"
    using pickMode.IH by (simp add: session_ok_def)
  then show ?case by (simp add: setModeAndStart_def session_ok_startNewGame)
next
  case (dismiss s)
  then show ?case by (simp add: session_ok_hideEndOverlay)
qed

subsection \<open>The sample session\<close>

lemma sample_shuffle:
  "shuffle sampleKeys SONGS_DATA =
     [swamp_cicada, thirteen_year_cicada, meadow_grasshopper, four_spotted_tree_cricket,
      european_mole_cricket, common_true_katydid, sword_bearing_conehead,
      european_field_cricket]"
  by (simp add: shuffle_def SONGS_DATA_def sampleKeys_def upt_rec)

lemma SONGS_DATA_not_Nil: "SONGS_DATA \<noteq> []"
  by (simp add: SONGS_DATA_def)

lemma firstRound_eq:
  "firstRound =
     \<lparr>currentMode = MODES_SPECTRO, currentRegion = None,
      sessionSongs = [swamp_cicada, thirteen_year_cicada, meadow_grasshopper,
        four_spotted_tree_cricket, european_mole_cricket],
      sessionIndex = 0, currentSong = Some swamp_cicada, roundsAnswered = 0,
      scoreCorrect = 0, hasAnswered = False, hadWrongGuess = False, nextBtnDisabled = True,
      endOverlayShown = False\<rparr>"
  by (simp add: firstRound_def startNewGame_def getRegionPool_def SONGS_DATA_not_Nil
      sample_shuffle renderRound_def loadedPage_def TOTAL_ROUNDS_def Let_def)

lemma initial_loadedPage: "initial loadedPage"
  by (simp add: initial_def loadedPage_def)

lemma reachable_firstRound: "reachable SONGS_DATA firstRound"
proof -
  have "reachable SONGS_DATA loadedPage"
    by (rule reachable.loaded) (rule initial_loadedPage)
  then have "reachable SONGS_DATA (setModeAndStart sampleKeys SONGS_DATA MODES_SPECTRO loadedPage)"
    by (rule reachable.pickMode)
  moreover have "loadedPage\<lparr>currentMode := MODES_SPECTRO\<rparr> = loadedPage"
    by (simp add: loadedPage_def)
  ultimately show ?thesis
    by (simp add: setModeAndStart_def firstRound_def)
qed

lemma names_differ: "commonName meadow_grasshopper \<noteq> commonName swamp_cicada"
  by (simp add: meadow_grasshopper_def swamp_cicada_def js_def)

subsection \<open>Invalid transitions\<close>

text \<open>
  Claim C5. An answer submitted after the round is resolved changes nothing: not the
  score, not the round counter, not any other part of the session; so a second correct
  answer cannot count twice. A request for the next round before the round is answered
  changes nothing either.
\<close>

theorem invalid_transitions_are_noops:
  "(hasAnswered s \<longrightarrow> handleAnswer songObj s = s) \<and> (\<not> hasAnswered s \<longrightarrow> goToNextRound s = s)"
  by (simp add: handleAnswer_def goToNextRound_def split: option.splits)

theorem invalid_transitions_are_noops_witness:
  "hasAnswered (handleAnswer (Some swamp_cicada) firstRound) \<and>
   handleAnswer (Some swamp_cicada) (handleAnswer (Some swamp_cicada) firstRound) =
     handleAnswer (Some swamp_cicada) firstRound \<and>
   scoreCorrect (handleAnswer (Some swamp_cicada) (handleAnswer (Some swamp_cicada) firstRound)) = 1 \<and>
   \<not> hasAnswered firstRound \<and> goToNextRound firstRound = firstRound"
proof -
  let ?done = "handleAnswer (Some swamp_cicada) firstRound"
  have a: "hasAnswered ?done" and sc: "scoreCorrect ?done = 1"
    by (simp_all add: firstRound_eq handleAnswer_def TOTAL_ROUNDS_def)
  have b: "\<not> hasAnswered firstRound"
    by (simp add: firstRound_eq)
  show ?thesis
    using a b sc invalid_transitions_are_noops [of ?done "Some swamp_cicada"]
      invalid_transitions_are_noops [of firstRound]
    by simp
qed

subsection \<open>Sequences of clicks, and the regions of the catalog\<close>

lemma reachable_clicks: "reachable SONGS s \<Longrightarrow> reachable SONGS (clicks cs s)"
proof (induction cs arbitrary: s)
  case Nil
  then show ?case by simp
next
  case (Cons c cs)
  have "reachable SONGS (perform c s)"
    using Cons.prems by (cases c) (simp_all add: reachable.answer reachable.advance)
  then show ?case by (simp add: Cons.IH)
qed

lemma mset_take_subset: "mset (take n xs) \<subseteq># mset xs"
proof -
  have "mset xs = mset (take n xs) + mset (drop n xs)"
    by (metis append_take_drop_id mset_append)
  then show ?thesis by simp
qed

lemma startNewGame_started:
  assumes "getRegionPool SONGS (currentRegion s) \<noteq> []"
  shows "startNewGame rnd SONGS s =
     s\<lparr>sessionSongs := take TOTAL_ROUNDS (shuffle rnd (getRegionPool SONGS (currentRegion s))),
       sessionIndex := 0, roundsAnswered := 0, scoreCorrect := 0,
       hasAnswered := False, hadWrongGuess := False, nextBtnDisabled := True,
       currentSong := Some (hd (shuffle rnd (getRegionPool SONGS (currentRegion s))))\<rparr>"
proof -
  let ?q = "shuffle rnd (getRegionPool SONGS (currentRegion s))"
  have ne: "?q \<noteq> []"
    using assms by (simp add: shuffle_Nil_iff)
  then have "take TOTAL_ROUNDS ?q \<noteq> []" and "take TOTAL_ROUNDS ?q ! 0 = hd ?q"
    by (simp_all add: TOTAL_ROUNDS_def hd_conv_nth)
  then show ?thesis
    using assms by (simp add: startNewGame_def renderRound_def Let_def)
qed

lemmas catalog_defs = four_spotted_tree_cricket_def swamp_cicada_def common_true_katydid_def
  meadow_grasshopper_def european_field_cricket_def european_mole_cricket_def
  thirteen_year_cicada_def sword_bearing_conehead_def

lemma catalog_regions:
  "region four_spotted_tree_cricket = Some (js ''North America'')"
  "region swamp_cicada = Some (js ''Eastern U.S.'')"
  "region common_true_katydid = Some (js ''Eastern U.S. forests'')"
  "region meadow_grasshopper = Some (js ''European grasslands'')"
  "region european_field_cricket = Some (js ''European grasslands'')"
  "region european_mole_cricket = Some (js ''Europe'')"
  "region thirteen_year_cicada = Some (js ''Midwestern U.S.'')"
  "region sword_bearing_conehead = Some (js ''Eastern North America'')"
  by (simp_all add: catalog_defs)

lemma pool_Europe: "getRegionPool SONGS_DATA (Some (js ''Europe'')) = [european_mole_cricket]"
  by (simp add: getRegionPool_def SONGS_DATA_def catalog_regions js_def)

lemma pool_Mars: "getRegionPool SONGS_DATA (Some (js ''Mars'')) = []"
  by (simp add: getRegionPool_def SONGS_DATA_def catalog_regions js_def)

lemma pool_all: "getRegionPool SONGS_DATA None = SONGS_DATA"
  by (simp add: getRegionPool_def)

subsection \<open>Starting a game\<close>

text \<open>
  Claim C1, as the claim states it, fails: with the region set to a name that no species
  of the catalog carries, the region pool is empty and \<^verbatim>\<open>startNewGame\<close> returns before
  it touches the session. No game starts, no song is drawn, and the full catalog is not
  used in place of the empty pool.
\<close>

theorem unknown_region_does_not_start:
  "SONGS_DATA \<noteq> [] \<and>
   getRegionPool SONGS_DATA (Some (js ''Mars'')) = [] \<and>
   chooseRegion sampleKeys SONGS_DATA (Some (js ''Mars'')) loadedPage =
     loadedPage\<lparr>currentRegion := Some (js ''Mars'')\<rparr> \<and>
   sessionSongs (chooseRegion sampleKeys SONGS_DATA (Some (js ''Mars'')) loadedPage) = [] \<and>
   currentSong (chooseRegion sampleKeys SONGS_DATA (Some (js ''Mars'')) loadedPage) = None"
  by (simp add: SONGS_DATA_not_Nil pool_Mars chooseRegion_def startNewGame_def loadedPage_def)

text \<open>
  Claim C1, amended. \<^verbatim>\<open>startNewGame\<close> draws from the region pool: the whole catalog
  when the region is unset or empty, otherwise exactly the species with that region.
  When this pool is empty the call changes nothing. When it is not empty a game starts:
  the session holds the first five songs of a shuffle of the pool (all of them if there
  are fewer), at least one, each an entry of the pool used at most once; the first of
  them is the current song, and the counters and flags are reset.
\<close>

theorem startNewGame_uses_region_pool:
  "(\<not> truthy (currentRegion s) \<longrightarrow> getRegionPool SONGS (currentRegion s) = SONGS) \<and>
   (truthy (currentRegion s) \<longrightarrow>
      getRegionPool SONGS (currentRegion s) = filter (\<lambda>sg. region sg = currentRegion s) SONGS) \<and>
   (getRegionPool SONGS (currentRegion s) = [] \<longrightarrow> startNewGame rnd SONGS s = s) \<and>
   (getRegionPool SONGS (currentRegion s) \<noteq> [] \<longrightarrow>
      sessionSongs (startNewGame rnd SONGS s) =
        take TOTAL_ROUNDS (shuffle rnd (getRegionPool SONGS (currentRegion s))) \<and>
      length (sessionSongs (startNewGame rnd SONGS s)) =
        min 5 (length (getRegionPool SONGS (currentRegion s))) \<and>
      1 \<le> length (sessionSongs (startNewGame rnd SONGS s)) \<and>
      mset (sessionSongs (startNewGame rnd SONGS s)) \<subseteq>#
        mset (getRegionPool SONGS (currentRegion s)) \<and>
      currentSong (startNewGame rnd SONGS s) = Some (hd (sessionSongs (startNewGame rnd SONGS s))) \<and>
      sessionIndex (startNewGame rnd SONGS s) = 0 \<and>
      roundsAnswered (startNewGame rnd SONGS s) = 0 \<and>
      scoreCorrect (startNewGame rnd SONGS s) = 0 \<and>
      \<not> hasAnswered (startNewGame rnd SONGS s) \<and>
      \<not> hadWrongGuess (startNewGame rnd SONGS s))"
proof -
  let ?pool = "getRegionPool SONGS (currentRegion s)"
  let ?q = "shuffle rnd ?pool"
  have filt: "(\<not> truthy (currentRegion s) \<longrightarrow> ?pool = SONGS) \<and>
      (truthy (currentRegion s) \<longrightarrow> ?pool = filter (\<lambda>sg. region sg = currentRegion s) SONGS)"
    by (simp add: getRegionPool_def)
  have refuse: "?pool = [] \<longrightarrow> startNewGame rnd SONGS s = s"
    by (simp add: startNewGame_def)
  have started: "?pool \<noteq> [] \<longrightarrow>
      sessionSongs (startNewGame rnd SONGS s) = take TOTAL_ROUNDS ?q \<and>
      length (sessionSongs (startNewGame rnd SONGS s)) = min 5 (length ?pool) \<and>
      1 \<le> length (sessionSongs (startNewGame rnd SONGS s)) \<and>
      mset (sessionSongs (startNewGame rnd SONGS s)) \<subseteq># mset ?pool \<and>
      currentSong (startNewGame rnd SONGS s) = Some (hd (sessionSongs (startNewGame rnd SONGS s))) \<and>
      sessionIndex (startNewGame rnd SONGS s) = 0 \<and>
      roundsAnswered (startNewGame rnd SONGS s) = 0 \<and>
      scoreCorrect (startNewGame rnd SONGS s) = 0 \<and>
      \<not> hasAnswered (startNewGame rnd SONGS s) \<and>
      \<not> hadWrongGuess (startNewGame rnd SONGS s)"
  proof
    assume ne: "?pool \<noteq> []"
    then have len: "?pool \<noteq> []" .
    have sub: "mset (take TOTAL_ROUNDS ?q) \<subseteq># mset ?pool"
      using mset_take_subset [of TOTAL_ROUNDS ?q] by (simp add: mset_shuffle)
    show "sessionSongs (startNewGame rnd SONGS s) = take TOTAL_ROUNDS ?q \<and>
      length (sessionSongs (startNewGame rnd SONGS s)) = min 5 (length ?pool) \<and>
      1 \<le> length (sessionSongs (startNewGame rnd SONGS s)) \<and>
      mset (sessionSongs (startNewGame rnd SONGS s)) \<subseteq># mset ?pool \<and>
      currentSong (startNewGame rnd SONGS s) = Some (hd (sessionSongs (startNewGame rnd SONGS s))) \<and>
      sessionIndex (startNewGame rnd SONGS s) = 0 \<and>
      roundsAnswered (startNewGame rnd SONGS s) = 0 \<and>
      scoreCorrect (startNewGame rnd SONGS s) = 0 \<and>
      \<not> hasAnswered (startNewGame rnd SONGS s) \<and>
      \<not> hadWrongGuess (startNewGame rnd SONGS s)"
      using len sub
      by (simp add: startNewGame_started [OF ne] length_shuffle TOTAL_ROUNDS_def min_def
          Suc_le_eq)
  qed
  from filt refuse started show ?thesis by blast
qed

theorem startNewGame_uses_region_pool_witness:
  "\<not> truthy (currentRegion loadedPage) \<and>
   getRegionPool SONGS_DATA (currentRegion loadedPage) = SONGS_DATA \<and>
   length (sessionSongs (startNewGame sampleKeys SONGS_DATA loadedPage)) = 5 \<and>
   truthy (currentRegion (loadedPage\<lparr>currentRegion := Some (js ''Europe'')\<rparr>)) \<and>
   sessionSongs (startNewGame sampleKeys SONGS_DATA
     (loadedPage\<lparr>currentRegion := Some (js ''Europe'')\<rparr>)) = [european_mole_cricket] \<and>
   getRegionPool SONGS_DATA (currentRegion (loadedPage\<lparr>currentRegion := Some (js ''Mars'')\<rparr>)) = [] \<and>
   startNewGame sampleKeys SONGS_DATA (loadedPage\<lparr>currentRegion := Some (js ''Mars'')\<rparr>) =
     loadedPage\<lparr>currentRegion := Some (js ''Mars'')\<rparr>"
proof -
  let ?eu = "loadedPage\<lparr>currentRegion := Some (js ''Europe'')\<rparr>"
  let ?mars = "loadedPage\<lparr>currentRegion := Some (js ''Mars'')\<rparr>"
  have r0: "currentRegion loadedPage = None"
    by (simp add: loadedPage_def)
  have p0: "getRegionPool SONGS_DATA (currentRegion loadedPage) \<noteq> []"
    by (simp add: r0 pool_all SONGS_DATA_not_Nil)
  have n0: "length SONGS_DATA = 8"
    by (simp add: SONGS_DATA_def)
  have t1: "truthy (currentRegion ?eu)"
    by (simp add: js_def)
  have p1: "getRegionPool SONGS_DATA (currentRegion ?eu) = [european_mole_cricket]"
    by (simp add: pool_Europe)
  have p2: "getRegionPool SONGS_DATA (currentRegion ?mars) = []"
    by (simp add: pool_Mars)
  have one: "shuffle sampleKeys [european_mole_cricket] = [european_mole_cricket]"
    by (simp add: shuffle_def)
  have ne1: "getRegionPool SONGS_DATA (currentRegion ?eu) \<noteq> []"
    by (simp add: pool_Europe)
  from startNewGame_uses_region_pool [of loadedPage SONGS_DATA sampleKeys] p0
  have "length (sessionSongs (startNewGame sampleKeys SONGS_DATA loadedPage)) =
      min 5 (length (getRegionPool SONGS_DATA (currentRegion loadedPage)))"
    by blast
  then have c0: "length (sessionSongs (startNewGame sampleKeys SONGS_DATA loadedPage)) = 5"
    by (simp add: r0 pool_all n0)
  from startNewGame_uses_region_pool [of loadedPage SONGS_DATA sampleKeys]
  have a0: "\<not> truthy (currentRegion loadedPage) \<longrightarrow>
      getRegionPool SONGS_DATA (currentRegion loadedPage) = SONGS_DATA"
    by blast
  from startNewGame_uses_region_pool [of ?eu SONGS_DATA sampleKeys] ne1
  have "sessionSongs (startNewGame sampleKeys SONGS_DATA ?eu) =
      take TOTAL_ROUNDS (shuffle sampleKeys (getRegionPool SONGS_DATA (currentRegion ?eu)))"
    by blast
  then have c1: "sessionSongs (startNewGame sampleKeys SONGS_DATA ?eu) = [european_mole_cricket]"
    by (simp add: pool_Europe one TOTAL_ROUNDS_def)
  from startNewGame_uses_region_pool [of ?mars SONGS_DATA sampleKeys] p2
  have c2: "startNewGame sampleKeys SONGS_DATA ?mars = ?mars"
    by blast
  have t0: "\<not> truthy (currentRegion loadedPage)"
    by (simp add: r0)
  from t0 a0 c0 t1 c1 p2 c2 show ?thesis
    by blast
qed

subsection \<open>What an answer and an advance do\<close>

lemma handleAnswer_correct:
  assumes "answersCorrectly songObj s"
  shows "handleAnswer songObj s =
     (let s2 = s\<lparr>hasAnswered := True, roundsAnswered := roundsAnswered s + 1,
                  scoreCorrect := (if hadWrongGuess s then scoreCorrect s else scoreCorrect s + 1)\<rparr>
      in if roundsAnswered s + 1 \<ge> TOTAL_ROUNDS
         then s2\<lparr>nextBtnDisabled := True, endOverlayShown := True\<rparr>
         else s2\<lparr>nextBtnDisabled := False\<rparr>)"
  using assms
  by (auto simp: answersCorrectly_def handleAnswer_def showEndOverlay_def Let_def
      split: option.splits)

lemma handleAnswer_wrong:
  assumes "answersWrongly songObj s"
  shows "handleAnswer songObj s = s\<lparr>hadWrongGuess := True\<rparr>"
  using assms
  by (auto simp: answersWrongly_def handleAnswer_def split: option.splits)

lemma handleAnswer_ignored:
  assumes "\<not> answersCorrectly songObj s" and "\<not> answersWrongly songObj s"
  shows "handleAnswer songObj s = s"
  using assms
  by (auto simp: answersCorrectly_def answersWrongly_def handleAnswer_def split: option.splits)

lemma scoreCorrect_handleAnswer_mono: "scoreCorrect s \<le> scoreCorrect (handleAnswer songObj s)"
  by (auto simp: handleAnswer_def showEndOverlay_def Let_def split: option.splits)

lemma scoreCorrect_goToNextRound: "scoreCorrect (goToNextRound s) = scoreCorrect s"
  by (simp add: goToNextRound_def Let_def renderRound_counters)

lemma roundsAnswered_goToNextRound: "roundsAnswered (goToNextRound s) = roundsAnswered s"
  by (simp add: goToNextRound_def Let_def renderRound_counters)

lemma sessionIndex_renderRound: "sessionIndex (renderRound s) = sessionIndex s"
  by (simp add: renderRound_def Let_def)

lemma goToNextRound_advances:
  "hasAnswered s \<Longrightarrow> roundsAnswered s < TOTAL_ROUNDS \<Longrightarrow>
   sessionIndex (goToNextRound s) = sessionIndex s + 1"
  by (simp add: goToNextRound_def Let_def sessionIndex_renderRound)


subsection \<open>Completion of a game\<close>

lemma gameComplete_goToNextRound: "gameComplete (goToNextRound s) = gameComplete s"
  by (simp add: gameComplete_def roundsAnswered_goToNextRound)

lemma gameComplete_hideEndOverlay: "gameComplete (hideEndOverlay s) = gameComplete s"
  by (simp add: gameComplete_def hideEndOverlay_def)

lemma gameComplete_terminal:
  assumes "session_ok s" and "gameComplete s"
  shows "handleAnswer songObj s = s" and "goToNextRound s = s"
proof -
  have "hasAnswered s"
    using assms by (simp add: session_ok_def gameComplete_def)
  then show "handleAnswer songObj s = s"
    by (simp add: handleAnswer_def split: option.splits)
  show "goToNextRound s = s"
    using assms(2) by (simp add: goToNextRound_def gameComplete_def)
qed

lemma gameComplete_handleAnswer_iff:
  assumes "\<not> gameComplete s"
  shows "gameComplete (handleAnswer songObj s) \<longleftrightarrow>
     answersCorrectly songObj s \<and> roundsAnswered s = 4"
proof (cases "answersCorrectly songObj s")
  case True
  then show ?thesis
    using assms
    by (auto simp: handleAnswer_correct [OF True] gameComplete_def TOTAL_ROUNDS_def Let_def)
next
  case False
  have "roundsAnswered (handleAnswer songObj s) = roundsAnswered s"
  proof (cases "answersWrongly songObj s")
    case True
    then show ?thesis by (simp add: handleAnswer_wrong)
  next
    case w: False
    show ?thesis by (simp add: handleAnswer_ignored [OF False w])
  qed
  then show ?thesis
    using assms False by (simp add: gameComplete_def)
qed

lemma endOverlay_handleAnswer:
  "endOverlayShown (handleAnswer songObj s) \<longleftrightarrow>
     endOverlayShown s \<or> (answersCorrectly songObj s \<and> roundsAnswered s + 1 \<ge> TOTAL_ROUNDS)"
proof (cases "answersCorrectly songObj s")
  case True
  then show ?thesis
    by (simp add: handleAnswer_correct [OF True] Let_def)
next
  case False
  show ?thesis
  proof (cases "answersWrongly songObj s")
    case True
    then show ?thesis using False by (simp add: handleAnswer_wrong)
  next
    case w: False
    show ?thesis using False by (simp add: handleAnswer_ignored [OF False w])
  qed
qed

lemma startNewGame_not_complete:
  assumes "getRegionPool SONGS (currentRegion s) \<noteq> []"
  shows "\<not> gameComplete (startNewGame rnd SONGS s)"
  by (simp add: startNewGame_started [OF assms] gameComplete_def TOTAL_ROUNDS_def)

lemma fifthRound_eq:
  "fifthRound =
     \<lparr>currentMode = MODES_SPECTRO, currentRegion = None,
      sessionSongs = [swamp_cicada, thirteen_year_cicada, meadow_grasshopper,
        four_spotted_tree_cricket, european_mole_cricket],
      sessionIndex = 4, currentSong = Some european_mole_cricket, roundsAnswered = 4,
      scoreCorrect = 4, hasAnswered = False, hadWrongGuess = False, nextBtnDisabled = True,
      endOverlayShown = False\<rparr>"
  by (simp add: fifthRound_def firstRound_eq handleAnswer_def goToNextRound_def
      renderRound_def TOTAL_ROUNDS_def Let_def)

lemma reachable_fifthRound: "reachable SONGS_DATA fifthRound"
  unfolding fifthRound_def by (rule reachable_clicks) (rule reachable_firstRound)

lemma finishedGame_eq:
  "finishedGame =
     \<lparr>currentMode = MODES_SPECTRO, currentRegion = None,
      sessionSongs = [swamp_cicada, thirteen_year_cicada, meadow_grasshopper,
        four_spotted_tree_cricket, european_mole_cricket],
      sessionIndex = 4, currentSong = Some european_mole_cricket, roundsAnswered = 5,
      scoreCorrect = 5, hasAnswered = True, hadWrongGuess = False, nextBtnDisabled = True,
      endOverlayShown = True\<rparr>"
  by (simp add: finishedGame_def fifthRound_eq handleAnswer_def showEndOverlay_def
      TOTAL_ROUNDS_def Let_def)

lemma reachable_finishedGame: "reachable SONGS_DATA finishedGame"
  unfolding finishedGame_def using reachable_fifthRound by (rule reachable.answer)

text \<open>
  Claim C4. In a reachable state of a game that is not complete, an answer completes the
  game exactly when it is a correct answer to the open fifth round (four rounds answered
  before it); that answer shows the end overlay and disables the next button, and no other
  answer makes the end overlay appear. An advance never changes whether the game is
  complete, nor does dismissing the overlay. A complete game is terminal: every answer and
  every advance leaves the state as it is. \<^verbatim>\<open>startNewGame\<close> leaves the complete state
  (with a region pool that is not empty).
\<close>

theorem game_completes_exactly_on_fifth_correct_answer:
  assumes "reachable SONGS s"
  shows "(\<not> gameComplete s \<longrightarrow>
       (gameComplete (handleAnswer songObj s) \<longleftrightarrow>
          answersCorrectly songObj s \<and> roundsAnswered s = 4)) \<and>
    (answersCorrectly songObj s \<and> roundsAnswered s = 4 \<longrightarrow>
       endOverlayShown (handleAnswer songObj s) \<and> nextBtnDisabled (handleAnswer songObj s)) \<and>
    (\<not> endOverlayShown s \<and> endOverlayShown (handleAnswer songObj s) \<longrightarrow>
       answersCorrectly songObj s \<and> roundsAnswered s = 4) \<and>
    gameComplete (goToNextRound s) = gameComplete s \<and>
    gameComplete (hideEndOverlay s) = gameComplete s \<and>
    (gameComplete s \<longrightarrow> handleAnswer songObj s = s \<and> goToNextRound s = s) \<and>
    (gameComplete s \<and> getRegionPool SONGS (currentRegion s) \<noteq> [] \<longrightarrow>
       \<not> gameComplete (startNewGame rnd SONGS s))"
proof -
  note ok = reachable_session_ok [OF assms]
  have le: "roundsAnswered s \<le> 5"
    using ok by (simp add: session_ok_def TOTAL_ROUNDS_def)
  have open_round: "answersCorrectly songObj s \<Longrightarrow> roundsAnswered s < 5"
  proof -
    assume "answersCorrectly songObj s"
    then have "\<not> hasAnswered s"
      by (simp add: answersCorrectly_def split: option.splits)
    then show "roundsAnswered s < 5"
      using ok by (auto simp: session_ok_def TOTAL_ROUNDS_def)
  qed
  have a: "\<not> gameComplete s \<longrightarrow>
       (gameComplete (handleAnswer songObj s) \<longleftrightarrow>
          answersCorrectly songObj s \<and> roundsAnswered s = 4)"
    by (simp add: gameComplete_handleAnswer_iff)
  have b: "answersCorrectly songObj s \<and> roundsAnswered s = 4 \<longrightarrow>
       endOverlayShown (handleAnswer songObj s) \<and> nextBtnDisabled (handleAnswer songObj s)"
    by (auto simp: handleAnswer_correct TOTAL_ROUNDS_def Let_def)
  have c: "\<not> endOverlayShown s \<and> endOverlayShown (handleAnswer songObj s) \<longrightarrow>
       answersCorrectly songObj s \<and> roundsAnswered s = 4"
    using open_round by (auto simp: endOverlay_handleAnswer TOTAL_ROUNDS_def)
  have d: "gameComplete s \<longrightarrow> handleAnswer songObj s = s \<and> goToNextRound s = s"
    using gameComplete_terminal [OF ok] by blast
  have e: "gameComplete s \<and> getRegionPool SONGS (currentRegion s) \<noteq> [] \<longrightarrow>
       \<not> gameComplete (startNewGame rnd SONGS s)"
    by (simp add: startNewGame_not_complete)
  from a b c d e gameComplete_goToNextRound [of s] gameComplete_hideEndOverlay [of s]
  show ?thesis by blast
qed

theorem game_completes_exactly_on_fifth_correct_answer_witness:
  "reachable SONGS_DATA fifthRound \<and> \<not> gameComplete fifthRound \<and>
   \<not> endOverlayShown fifthRound \<and>
   answersCorrectly (Some european_mole_cricket) fifthRound \<and> roundsAnswered fifthRound = 4 \<and>
   gameComplete (handleAnswer (Some european_mole_cricket) fifthRound) \<and>
   endOverlayShown (handleAnswer (Some european_mole_cricket) fifthRound) \<and>
   reachable SONGS_DATA finishedGame \<and> gameComplete finishedGame \<and>
   getRegionPool SONGS_DATA (currentRegion finishedGame) \<noteq> [] \<and>
   handleAnswer (Some swamp_cicada) finishedGame = finishedGame \<and>
   goToNextRound finishedGame = finishedGame \<and>
   \<not> gameComplete (startNewGame sampleKeys SONGS_DATA finishedGame)"
proof -
  note r5 = reachable_fifthRound and rf = reachable_finishedGame
  have n5: "\<not> gameComplete fifthRound" and e5: "\<not> endOverlayShown fifthRound"
    and c5: "answersCorrectly (Some european_mole_cricket) fifthRound"
    and k5: "roundsAnswered fifthRound = 4"
    by (simp_all add: fifthRound_eq gameComplete_def answersCorrectly_def TOTAL_ROUNDS_def)
  have gf: "gameComplete finishedGame"
    and pf: "getRegionPool SONGS_DATA (currentRegion finishedGame) \<noteq> []"
    by (simp_all add: finishedGame_eq gameComplete_def TOTAL_ROUNDS_def pool_all
        SONGS_DATA_not_Nil)
  from game_completes_exactly_on_fifth_correct_answer
    [OF r5, of "Some european_mole_cricket" sampleKeys] n5 c5 k5
  have g: "gameComplete (handleAnswer (Some european_mole_cricket) fifthRound)"
    and o: "endOverlayShown (handleAnswer (Some european_mole_cricket) fifthRound)"
    by blast+
  from game_completes_exactly_on_fifth_correct_answer
    [OF rf, of "Some swamp_cicada" sampleKeys] gf pf
  have t: "handleAnswer (Some swamp_cicada) finishedGame = finishedGame"
    and u: "goToNextRound finishedGame = finishedGame"
    and x: "\<not> gameComplete (startNewGame sampleKeys SONGS_DATA finishedGame)"
    by blast+
  from r5 n5 e5 c5 k5 g o rf gf pf t u x show ?thesis
    by blast
qed

subsection \<open>Drawing the targets of a session\<close>




lemma renderRound_in_range:
  assumes "sessionIndex s < length (sessionSongs s)"
  shows "renderRound s =
     s\<lparr>currentSong := Some (sessionSongs s ! sessionIndex s), hasAnswered := False,
       hadWrongGuess := False, nextBtnDisabled := True\<rparr>"
proof -
  have "sessionSongs s \<noteq> []"
    using assms by auto
  then show ?thesis
    using assms by (simp add: renderRound_def Let_def)
qed

lemma goToNextRound_draws:
  assumes "hasAnswered s" and "roundsAnswered s < TOTAL_ROUNDS"
    and "sessionIndex s + 1 < length (sessionSongs s)"
  shows "goToNextRound s =
     s\<lparr>sessionIndex := sessionIndex s + 1,
       currentSong := Some (sessionSongs s ! (sessionIndex s + 1)), hasAnswered := False,
       hadWrongGuess := False, nextBtnDisabled := True\<rparr>"
  using assms by (simp add: goToNextRound_def Let_def renderRound_in_range)











subsection \<open>Answer options\<close>

lemma length_filter_other:
  "distinct xs \<Longrightarrow> x \<in> set xs \<Longrightarrow> length (filter (\<lambda>n. n \<noteq> x) xs) = length xs - 1"
proof (induction xs)
  case Nil
  then show ?case by simp
next
  case (Cons y ys)
  show ?case
  proof (cases "y = x")
    case True
    then have "x \<notin> set ys"
      using Cons.prems by simp
    then have "filter (\<lambda>n. n \<noteq> x) ys = ys"
      by (auto simp: filter_id_conv)
    then show ?thesis
      using True by simp
  next
    case False
    then have "x \<in> set ys" and "distinct ys"
      using Cons.prems by simp_all
    then have "length (filter (\<lambda>n. n \<noteq> x) ys) = length ys - 1" and "ys \<noteq> []"
      using Cons.IH by auto
    then show ?thesis
      using False by (cases ys) simp_all
  qed
qed

lemma buildChoices_eq:
  "buildChoices rnd1 rnd2 SONGS cr correctName =
     shuffle rnd2 (correctName #
       take 3 (shuffle rnd1 (filter (\<lambda>n. n \<noteq> correctName) (regionNames SONGS cr))))"
  by (simp add: buildChoices_def regionNames_def Let_def)

lemma set_wrong_choices:
  "set (take 3 (shuffle rnd (filter (\<lambda>n. n \<noteq> x) names))) \<subseteq> set names - {x}"
proof -
  have "set (take 3 (shuffle rnd (filter (\<lambda>n. n \<noteq> x) names))) \<subseteq>
      set (shuffle rnd (filter (\<lambda>n. n \<noteq> x) names))"
    by (rule set_take_subset)
  then show ?thesis
    by (auto simp: set_shuffle)
qed

lemma set_buildChoices:
  "set (buildChoices rnd1 rnd2 SONGS cr correctName) \<subseteq> insert correctName (set (regionNames SONGS cr))"
  using set_wrong_choices [of rnd1 correctName "regionNames SONGS cr"]
  by (auto simp: buildChoices_eq set_shuffle)

lemma distinct_buildChoices:
  assumes "distinct (regionNames SONGS cr)"
  shows "distinct (buildChoices rnd1 rnd2 SONGS cr correctName)"
proof -
  let ?w = "take 3 (shuffle rnd1 (filter (\<lambda>n. n \<noteq> correctName) (regionNames SONGS cr)))"
  have "distinct ?w"
    using assms by (simp add: distinct_shuffle)
  moreover have "correctName \<notin> set ?w"
    using set_wrong_choices [of rnd1 correctName "regionNames SONGS cr"] by auto
  ultimately show ?thesis
    by (simp add: buildChoices_eq distinct_shuffle)
qed

lemma count_buildChoices:
  "count_list (buildChoices rnd1 rnd2 SONGS cr correctName) correctName = 1"
proof -
  let ?w = "take 3 (shuffle rnd1 (filter (\<lambda>n. n \<noteq> correctName) (regionNames SONGS cr)))"
  have "correctName \<notin> set ?w"
    using set_wrong_choices [of rnd1 correctName "regionNames SONGS cr"] by auto
  then have "count (mset (correctName # ?w)) correctName = 1"
    by (simp add: count_eq_zero_iff)
  then have "count (mset (buildChoices rnd1 rnd2 SONGS cr correctName)) correctName = 1"
    by (simp only: buildChoices_eq mset_shuffle)
  then show ?thesis
    by (simp only: count_mset)
qed

lemma length_buildChoices:
  assumes "distinct (regionNames SONGS cr)" and "correctName \<in> set (regionNames SONGS cr)"
  shows "length (buildChoices rnd1 rnd2 SONGS cr correctName) = min 4 (length (regionNames SONGS cr))"
proof -
  let ?others = "filter (\<lambda>n. n \<noteq> correctName) (regionNames SONGS cr)"
  have "regionNames SONGS cr \<noteq> []"
    using assms(2) by auto
  then have n: "1 \<le> length (regionNames SONGS cr)"
    by (simp add: Suc_le_eq)
  have "length (buildChoices rnd1 rnd2 SONGS cr correctName) = 1 + min 3 (length ?others)"
    by (simp add: buildChoices_eq length_shuffle)
  with n length_filter_other [OF assms] show ?thesis
    by arith
qed

lemma whole_pool_buildChoices:
  assumes "distinct (regionNames SONGS cr)" and "correctName \<in> set (regionNames SONGS cr)"
    and "length (regionNames SONGS cr) \<le> 4"
  shows "set (buildChoices rnd1 rnd2 SONGS cr correctName) = set (regionNames SONGS cr)"
proof -
  let ?others = "filter (\<lambda>n. n \<noteq> correctName) (regionNames SONGS cr)"
  have "length (shuffle rnd1 ?others) \<le> 3"
    using length_filter_other [OF assms(1,2)] assms(3) by (simp add: length_shuffle)
  then have "take 3 (shuffle rnd1 ?others) = shuffle rnd1 ?others"
    by simp
  then have "set (buildChoices rnd1 rnd2 SONGS cr correctName) = insert correctName (set ?others)"
    by (simp add: buildChoices_eq set_shuffle)
  then show ?thesis
    using assms(2) by auto
qed

lemma catalog_names:
  "commonName four_spotted_tree_cricket = Some (js ''Four-spotted Tree Cricket'')"
  "commonName swamp_cicada = Some (js ''Swamp Cicada'')"
  "commonName common_true_katydid = Some (js ''Common True Katydid'')"
  "commonName meadow_grasshopper = Some (js ''Meadow Grasshopper'')"
  "commonName european_field_cricket = Some (js ''European Field Cricket'')"
  "commonName european_mole_cricket = Some (js ''European Mole Cricket'')"
  "commonName thirteen_year_cicada = Some (js ''13-year Cicada'')"
  "commonName sword_bearing_conehead = Some (js ''Sword-bearing Conehead'')"
  by (simp_all add: catalog_defs)

lemma names_all:
  "regionNames SONGS_DATA None =
     [Some (js ''Four-spotted Tree Cricket''), Some (js ''Swamp Cicada''),
      Some (js ''Common True Katydid''), Some (js ''Meadow Grasshopper''),
      Some (js ''European Field Cricket''), Some (js ''European Mole Cricket''),
      Some (js ''13-year Cicada''), Some (js ''Sword-bearing Conehead'')]"
  by (simp add: regionNames_def pool_all) (simp add: SONGS_DATA_def catalog_names js_def)

lemma distinct_names_all: "distinct (regionNames SONGS_DATA None)"
  by (simp only: names_all) (simp add: js_def)


lemma pool_grasslands:
  "getRegionPool SONGS_DATA (Some (js ''European grasslands'')) =
     [meadow_grasshopper, european_field_cricket]"
  by (simp add: getRegionPool_def SONGS_DATA_def catalog_regions js_def)

lemma names_grasslands:
  "regionNames SONGS_DATA (Some (js ''European grasslands'')) =
     [Some (js ''Meadow Grasshopper''), Some (js ''European Field Cricket'')]"
  by (simp add: regionNames_def pool_grasslands catalog_names) (simp add: js_def)

text \<open>
  Claim C3. For a round whose target's name is among the names of the active region pool,
  these names being distinct, the options built for the round number min(4, pool size),
  hold the target's name exactly once, hold no name twice, and all come from the pool;
  when the pool has at most four names (so also when it has fewer than four), the options
  are the whole pool. The pool size is that of the list of names, which is the size of
  the region pool itself when every species of it has a name.
\<close>

theorem buildChoices_options:
  assumes "distinct (regionNames SONGS cr)" and "correctName \<in> set (regionNames SONGS cr)"
  shows "length (buildChoices rnd1 rnd2 SONGS cr correctName) = min 4 (length (regionNames SONGS cr)) \<and>
    count_list (buildChoices rnd1 rnd2 SONGS cr correctName) correctName = 1 \<and>
    distinct (buildChoices rnd1 rnd2 SONGS cr correctName) \<and>
    set (buildChoices rnd1 rnd2 SONGS cr correctName) \<subseteq> set (regionNames SONGS cr) \<and>
    (length (regionNames SONGS cr) \<le> 4 \<longrightarrow>
       set (buildChoices rnd1 rnd2 SONGS cr correctName) = set (regionNames SONGS cr)) \<and>
    ((\<forall>sg \<in> set (getRegionPool SONGS cr). truthy (commonName sg)) \<longrightarrow>
       length (buildChoices rnd1 rnd2 SONGS cr correctName) = min 4 (length (getRegionPool SONGS cr)))"
proof -
  have sub: "set (buildChoices rnd1 rnd2 SONGS cr correctName) \<subseteq> set (regionNames SONGS cr)"
    using set_buildChoices [of rnd1 rnd2 SONGS cr correctName] assms(2) by auto
  have all: "(\<forall>sg \<in> set (getRegionPool SONGS cr). truthy (commonName sg)) \<longrightarrow>
      length (regionNames SONGS cr) = length (getRegionPool SONGS cr)"
    by (auto simp: regionNames_def filter_id_conv)
  from length_buildChoices [OF assms] count_buildChoices distinct_buildChoices [OF assms(1)] sub
    whole_pool_buildChoices [OF assms] all
  show ?thesis
    by metis
qed

theorem buildChoices_options_witness:
  "distinct (regionNames SONGS_DATA None) \<and>
   commonName swamp_cicada \<in> set (regionNames SONGS_DATA None) \<and>
   list_all (\<lambda>sg. truthy (commonName sg)) (getRegionPool SONGS_DATA None) \<and>
   length (buildChoices sampleKeys sampleKeys SONGS_DATA None (commonName swamp_cicada)) = 4 \<and>
   count_list (buildChoices sampleKeys sampleKeys SONGS_DATA None (commonName swamp_cicada))
     (commonName swamp_cicada) = 1 \<and>
   distinct (regionNames SONGS_DATA (Some (js ''European grasslands''))) \<and>
   commonName meadow_grasshopper \<in> set (regionNames SONGS_DATA (Some (js ''European grasslands''))) \<and>
   length (regionNames SONGS_DATA (Some (js ''European grasslands''))) \<le> 4 \<and>
   length (buildChoices sampleKeys sampleKeys SONGS_DATA (Some (js ''European grasslands''))
     (commonName meadow_grasshopper)) = 2 \<and>
   set (buildChoices sampleKeys sampleKeys SONGS_DATA (Some (js ''European grasslands''))
     (commonName meadow_grasshopper)) =
     {commonName meadow_grasshopper, commonName european_field_cricket}"
proof -
  let ?g = "Some (js ''European grasslands'')"
  note d0 = distinct_names_all
  have m0: "commonName swamp_cicada \<in> set (regionNames SONGS_DATA None)"
    by (simp only: names_all catalog_names) simp
  have t0: "\<forall>sg \<in> set (getRegionPool SONGS_DATA None). truthy (commonName sg)"
    by (simp add: pool_all) (simp add: SONGS_DATA_def catalog_names js_def)
  have n0: "length (getRegionPool SONGS_DATA None) = 8"
    by (simp add: pool_all) (simp add: SONGS_DATA_def)
  have d1: "distinct (regionNames SONGS_DATA ?g)"
    by (simp only: names_grasslands) (simp add: js_def)
  have m1: "commonName meadow_grasshopper \<in> set (regionNames SONGS_DATA ?g)"
    by (simp only: names_grasslands catalog_names) simp
  have n1: "length (regionNames SONGS_DATA ?g) = 2"
    by (simp only: names_grasslands) simp
  have s1: "set (regionNames SONGS_DATA ?g) =
      {commonName meadow_grasshopper, commonName european_field_cricket}"
    by (simp only: names_grasslands catalog_names) simp
  from buildChoices_options [OF d0 m0, of sampleKeys sampleKeys] t0 n0
  have a: "length (buildChoices sampleKeys sampleKeys SONGS_DATA None (commonName swamp_cicada)) = 4"
    and b: "count_list (buildChoices sampleKeys sampleKeys SONGS_DATA None (commonName swamp_cicada))
      (commonName swamp_cicada) = 1"
    by simp_all
  from buildChoices_options [OF d1 m1, of sampleKeys sampleKeys] n1 s1
  have c: "length (buildChoices sampleKeys sampleKeys SONGS_DATA ?g (commonName meadow_grasshopper)) = 2"
    and d: "set (buildChoices sampleKeys sampleKeys SONGS_DATA ?g (commonName meadow_grasshopper)) =
      {commonName meadow_grasshopper, commonName european_field_cricket}"
    by simp_all
  have le: "length (regionNames SONGS_DATA ?g) \<le> 4"
    by (simp add: n1)
  have t0': "list_all (\<lambda>sg. truthy (commonName sg)) (getRegionPool SONGS_DATA None)"
    using t0 by (simp add: list_all_iff)
  from d0 m0 t0' a b d1 m1 le c d show ?thesis
    by blast
qed



subsection \<open>End-of-game messages\<close>

lemma modes_differ:
  "MODES_IMAGE \<noteq> MODES_SPECTRO" "MODES_FACTS \<noteq> MODES_SPECTRO" "MODES_FACTS \<noteq> MODES_IMAGE"
  by (simp_all add: MODES_SPECTRO_def MODES_IMAGE_def MODES_FACTS_def js_def)

lemma js_Nil_iff: "js t = [] \<longleftrightarrow> t = []"
  by (simp add: js_def)

lemma messageTable_eq:
  "messageTable =
     [js ''You need to clean your ears. Play again...'',
      js ''You need to learn to listen. Play again...'',
      js ''Almost half way there!'',
      js ''Pretty good! Your chance of finding a mate is more than 50%!'',
      js ''Impressive ears!'',
      js ''Master of insect sounds! You must be an insect sound biologist!'',
      js ''You need new glasses. Play again...'',
      js ''You need to look more closely. Play again...'',
      js ''Almost half way there! Keep sharpening your eyes.'',
      js ''Pretty good! Your field ID skills are waking up.'',
      js ''Impressive eye for insects!'',
      js ''Master of insect identification! Your field guide game is strong!'',
      js ''You need to hit the books. Play again...'',
      js ''You need to brush up your insect trivia.'',
      js ''Almost half way there! These facts are starting to stick.'',
      js ''Pretty good! Your insect natural history memory is solid.'',
      js ''Impressive knowledge! You're almost a walking field guide.'',
      js ''Master of insect facts! You must be an insect natural history expert!'']"
  by (simp add: messageTable_def allModes_def endMessage_def modes_differ)

lemma distinct_messageTable: "distinct messageTable"
  by (simp only: messageTable_eq) (simp add: js_def)

lemma fallback_not_in_table: "js ''Nice work!'' \<notin> set messageTable"
  by (simp only: messageTable_eq) (simp add: js_def)

lemma endMessage_not_Nil: "endMessage score mode \<noteq> []"
  by (simp add: endMessage_def js_Nil_iff)

lemma endMessage_in_table:
  assumes "mode \<in> set allModes"
  shows "endMessage score mode \<in> set messageTable"
proof -
  consider "mode = MODES_SPECTRO" | "mode = MODES_IMAGE" | "mode = MODES_FACTS"
    using assms by (auto simp: allModes_def)
  then show ?thesis
  proof cases
    case 1
    then show ?thesis
      by (simp only: messageTable_eq) (simp add: endMessage_def)
  next
    case 2
    then show ?thesis
      by (simp only: messageTable_eq) (simp add: endMessage_def modes_differ)
  next
    case 3
    then show ?thesis
      by (simp only: messageTable_eq) (simp add: endMessage_def modes_differ)
  qed
qed

lemma endMessage_fallback:
  assumes "mode \<notin> set allModes"
  shows "endMessage score mode = js ''Nice work!''"
  using assms by (simp add: endMessage_def allModes_def)

text \<open>
  Claim C6. \<^verbatim>\<open>endMessage\<close> is a function of the score and the mode alone: it takes no
  random source and no session state, so equal inputs give equal outputs. It returns a
  string that is not empty for every score and every mode. For each of the three modes
  the string is one of the table of messages, which lists the results for the three modes
  and the scores 0 to 5: eighteen strings, pairwise different. For any other mode the
  result is the one generic message, which is not in the table.
\<close>

theorem endMessage_fixed_table:
  "endMessage score mode \<noteq> [] \<and>
   (mode \<in> set allModes \<longrightarrow> endMessage score mode \<in> set messageTable) \<and>
   (mode \<notin> set allModes \<longrightarrow> endMessage score mode = js ''Nice work!'') \<and>
   messageTable = concat (map (\<lambda>m. map (\<lambda>sc. endMessage sc m) [0, 1, 2, 3, 4, 5])
     [MODES_SPECTRO, MODES_IMAGE, MODES_FACTS]) \<and>
   length messageTable = 18 \<and> distinct messageTable \<and>
   js ''Nice work!'' \<notin> set messageTable"
proof -
  have "length messageTable = 18"
    by (simp only: messageTable_eq) simp
  moreover have "messageTable = concat (map (\<lambda>m. map (\<lambda>sc. endMessage sc m) [0, 1, 2, 3, 4, 5])
     [MODES_SPECTRO, MODES_IMAGE, MODES_FACTS])"
    by (simp only: messageTable_def allModes_def)
  ultimately show ?thesis
    using endMessage_not_Nil endMessage_in_table endMessage_fallback distinct_messageTable
      fallback_not_in_table
    by blast
qed

theorem endMessage_fixed_table_witness:
  "MODES_FACTS \<in> set allModes \<and>
   endMessage 5 MODES_FACTS =
     js ''Master of insect facts! You must be an insect natural history expert!'' \<and>
   endMessage 5 MODES_FACTS \<in> set messageTable \<and>
   js ''quiz'' \<notin> set allModes \<and> endMessage 3 (js ''quiz'') = js ''Nice work!''"
proof -
  have m: "MODES_FACTS \<in> set allModes"
    by (simp add: allModes_def)
  have q: "js ''quiz'' \<notin> set allModes"
    by (simp add: allModes_def MODES_SPECTRO_def MODES_IMAGE_def MODES_FACTS_def js_def)
  have e: "endMessage 5 MODES_FACTS =
      js ''Master of insect facts! You must be an insect natural history expert!''"
    by (simp add: endMessage_def modes_differ)
  from endMessage_fixed_table [of 5 MODES_FACTS] m
  have a: "endMessage 5 MODES_FACTS \<in> set messageTable"
    by blast
  from endMessage_fixed_table [of 3 "js ''quiz''"] q
  have b: "endMessage 3 (js ''quiz'') = js ''Nice work!''"
    by blast
  from m e a q b show ?thesis
    by blast
qed

subsection \<open>Redaction keeps the length\<close>

lemma matchesAt_length: "matchesAt canon p str \<Longrightarrow> length p \<le> length str"
  by (induction canon p str rule: matchesAt.induct) simp_all

lemma firstMatch_length: "firstMatch canon alts str = Some m \<Longrightarrow> m \<le> length str"
proof (induction alts)
  case Nil
  then show ?case by simp
next
  case (Cons p ps)
  then show ?case
    by (auto simp: matchesAt_length split: if_splits)
qed

lemma length_replaceAll: "length (replaceAll canon alts str) = length str"
proof (induction canon alts str rule: replaceAll.induct)
  case (1 canon alts)
  show ?case by simp
next
  case (2 canon alts c cs)
  show ?case
  proof (cases "firstMatch canon alts (c # cs)")
    case None
    then show ?thesis
      using "2.IH"(1) by simp
  next
    case (Some m)
    show ?thesis
    proof (cases "m = 0")
      case True
      then show ?thesis
        using Some "2.IH"(2) by simp
    next
      case False
      have "m \<le> length (c # cs)"
        using Some by (rule firstMatch_length)
      moreover have "length (replaceAll canon alts (drop m (c # cs))) = length (drop m (c # cs))"
        using "2.IH"(3) [OF Some False] .
      ultimately show ?thesis
        using Some False by simp
    qed
  qed
qed

lemma replaceAll_pointwise:
  "list_all2 (\<lambda>out c. out = c \<or> out = bullet) (replaceAll canon alts str) str"
proof (induction canon alts str rule: replaceAll.induct)
  case (1 canon alts)
  show ?case by simp
next
  case (2 canon alts c cs)
  show ?case
  proof (cases "firstMatch canon alts (c # cs)")
    case None
    then show ?thesis
      using "2.IH"(1) by simp
  next
    case (Some m)
    show ?thesis
    proof (cases "m = 0")
      case True
      then show ?thesis
        using Some "2.IH"(2) by simp
    next
      case False
      have le: "m \<le> length (c # cs)"
        using Some by (rule firstMatch_length)
      have hidden: "list_all2 (\<lambda>out c. out = c \<or> out = bullet) (replicate m bullet) (take m (c # cs))"
        using le by (simp add: list_all2_conv_all_nth)
      have rest: "list_all2 (\<lambda>out c. out = c \<or> out = bullet)
          (replaceAll canon alts (drop m (c # cs))) (drop m (c # cs))"
        using "2.IH"(3) [OF Some False] .
      have "list_all2 (\<lambda>out c. out = c \<or> out = bullet)
          (replicate m bullet @ replaceAll canon alts (drop m (c # cs)))
          (take m (c # cs) @ drop m (c # cs))"
        using hidden rest by (rule list_all2_appendI)
      then have "list_all2 (\<lambda>out c. out = c \<or> out = bullet)
          (replicate m bullet @ replaceAll canon alts (drop m (c # cs))) (c # cs)"
        by (simp only: append_take_drop_id)
      moreover have "replaceAll canon alts (c # cs) =
          replicate m bullet @ replaceAll canon alts (drop m (c # cs))"
        using Some False by simp
      ultimately show ?thesis
        by (simp only:)
    qed
  qed
qed

lemma redactFact_no_fact: "\<not> truthy (fact sg) \<Longrightarrow> redactFact canon lower (Some sg) = []"
  by (simp add: redactFact_def)

lemma redactFact_pointwise:
  assumes "truthy (fact sg)"
  shows "list_all2 (\<lambda>out c. out = c \<or> out = bullet)
     (redactFact canon lower (Some sg)) (orEmpty (fact sg))"
  using assms
  by (simp add: redactFact_def Let_def replaceAll_pointwise list_all2_refl)

lemma periodical_fact_length: "length (orEmpty (fact thirteen_year_cicada)) = 220"
  by (simp add: thirteen_year_cicada_def orEmpty_def js_def)

text \<open>
  Claim C10. \<^verbatim>\<open>redactFact\<close> returns the empty string for a null song and for a song
  with no fact. Otherwise it returns a string exactly as long as the song's fact, and at
  every position the result has either the code unit of the fact or a bullet. This holds
  for any case-folding tables of the engine.
\<close>

theorem redactFact_preserves_length:
  "redactFact canon lower None = [] \<and>
   (\<not> truthy (fact sg) \<longrightarrow> redactFact canon lower (Some sg) = []) \<and>
   (truthy (fact sg) \<longrightarrow>
      fact sg = Some (orEmpty (fact sg)) \<and>
      length (redactFact canon lower (Some sg)) = length (orEmpty (fact sg)) \<and>
      (\<forall>i < length (orEmpty (fact sg)).
         redactFact canon lower (Some sg) ! i = orEmpty (fact sg) ! i \<or>
         redactFact canon lower (Some sg) ! i = bullet))"
proof -
  have none: "redactFact canon lower None = []"
    by (simp add: redactFact_def)
  have some: "truthy (fact sg) \<longrightarrow>
      fact sg = Some (orEmpty (fact sg)) \<and>
      length (redactFact canon lower (Some sg)) = length (orEmpty (fact sg)) \<and>
      (\<forall>i < length (orEmpty (fact sg)).
         redactFact canon lower (Some sg) ! i = orEmpty (fact sg) ! i \<or>
         redactFact canon lower (Some sg) ! i = bullet)"
  proof
    assume t: "truthy (fact sg)"
    then have "fact sg = Some (orEmpty (fact sg))"
      by (cases "fact sg") (simp_all add: orEmpty_def)
    moreover note redactFact_pointwise [OF t, of canon lower]
    ultimately show "fact sg = Some (orEmpty (fact sg)) \<and>
      length (redactFact canon lower (Some sg)) = length (orEmpty (fact sg)) \<and>
      (\<forall>i < length (orEmpty (fact sg)).
         redactFact canon lower (Some sg) ! i = orEmpty (fact sg) ! i \<or>
         redactFact canon lower (Some sg) ! i = bullet)"
      by (simp add: list_all2_conv_all_nth)
  qed
  from none some redactFact_no_fact [of sg canon lower] show ?thesis
    by blast
qed

theorem redactFact_preserves_length_witness:
  "truthy (fact thirteen_year_cicada) \<and>
   length (redactFact asciiCanon asciiLower (Some thirteen_year_cicada)) = 220 \<and>
   (0::nat) < length (orEmpty (fact thirteen_year_cicada)) \<and>
   (redactFact asciiCanon asciiLower (Some thirteen_year_cicada) ! 0 =
      orEmpty (fact thirteen_year_cicada) ! 0 \<or>
    redactFact asciiCanon asciiLower (Some thirteen_year_cicada) ! 0 = bullet) \<and>
   \<not> truthy (fact factlessEntry) \<and>
   redactFact asciiCanon asciiLower (Some factlessEntry) = []"
proof -
  have t: "truthy (fact thirteen_year_cicada)"
    by (simp add: thirteen_year_cicada_def js_def)
  have f: "\<not> truthy (fact factlessEntry)"
    by (simp add: factlessEntry_def)
  have p: "(0::nat) < length (orEmpty (fact thirteen_year_cicada))"
    by (simp add: periodical_fact_length)
  from redactFact_preserves_length [of asciiCanon asciiLower thirteen_year_cicada] t
  have len: "length (redactFact asciiCanon asciiLower (Some thirteen_year_cicada)) =
      length (orEmpty (fact thirteen_year_cicada))"
    and pt: "\<forall>i < length (orEmpty (fact thirteen_year_cicada)).
         redactFact asciiCanon asciiLower (Some thirteen_year_cicada) ! i =
           orEmpty (fact thirteen_year_cicada) ! i \<or>
         redactFact asciiCanon asciiLower (Some thirteen_year_cicada) ! i = bullet"
    by blast+
  from pt p have first: "redactFact asciiCanon asciiLower (Some thirteen_year_cicada) ! 0 =
      orEmpty (fact thirteen_year_cicada) ! 0 \<or>
    redactFact asciiCanon asciiLower (Some thirteen_year_cicada) ! 0 = bullet"
    by blast
  from redactFact_preserves_length [of asciiCanon asciiLower factlessEntry] f
  have e: "redactFact asciiCanon asciiLower (Some factlessEntry) = []"
    by blast
  from t len p first f e show ?thesis
    by (simp add: periodical_fact_length)
qed

subsection \<open>Scoring\<close>

lemma session_sync_initial: "initial s \<Longrightarrow> session_sync s"
  by (simp add: initial_def session_sync_def)

lemma session_sync_handleAnswer: "session_sync s \<Longrightarrow> session_sync (handleAnswer songObj s)"
proof (cases "answersCorrectly songObj s")
  case True
  assume ok: "session_sync s"
  from True have "\<not> hasAnswered s"
    by (simp add: answersCorrectly_def split: option.splits)
  then show ?thesis
    using ok by (simp add: handleAnswer_correct [OF True] session_sync_def Let_def)
next
  case False
  assume ok: "session_sync s"
  show ?thesis
  proof (cases "answersWrongly songObj s")
    case True
    then show ?thesis
      using ok by (simp add: handleAnswer_wrong session_sync_def)
  next
    case w: False
    show ?thesis
      using ok by (simp add: handleAnswer_ignored [OF False w])
  qed
qed

lemma session_sync_goToNextRound:
  assumes "session_sync s"
  shows "session_sync (goToNextRound s)"
proof (cases "hasAnswered s \<and> roundsAnswered s < TOTAL_ROUNDS")
  case False
  then have "goToNextRound s = s"
    by (auto simp: goToNextRound_def)
  then show ?thesis
    using assms by simp
next
  case True
  show ?thesis
  proof (cases "sessionIndex s + 1 < length (sessionSongs s)")
    case next_song: True
    then show ?thesis
      using assms True by (simp add: goToNextRound_draws session_sync_def)
  next
    case False
    then have "goToNextRound s = s\<lparr>sessionIndex := sessionIndex s + 1\<rparr>"
      using True by (simp add: goToNextRound_def Let_def)
    then show ?thesis
      using assms True False by (simp add: session_sync_def)
  qed
qed

lemma session_sync_startNewGame:
  assumes "session_sync s"
  shows "session_sync (startNewGame rnd SONGS s)"
proof (cases "getRegionPool SONGS (currentRegion s) = []")
  case True
  then show ?thesis
    using assms by (simp add: startNewGame_def)
next
  case False
  have "shuffle rnd (getRegionPool SONGS (currentRegion s)) \<noteq> []"
    using False by (simp add: shuffle_Nil_iff)
  then show ?thesis
    by (simp add: startNewGame_started [OF False] session_sync_def TOTAL_ROUNDS_def)
qed

lemma reachable_session_sync: "reachable SONGS s \<Longrightarrow> session_sync s"
proof (induction rule: reachable.induct)
  case (loaded s)
  then show ?case by (rule session_sync_initial)
next
  case (answer s songObj)
  then show ?case by (simp add: session_sync_handleAnswer)
next
  case (advance s)
  then show ?case by (simp add: session_sync_goToNextRound)
next
  case (again s rnd)
  have "session_sync (hideEndOverlay s)"
    using again.IH by (simp add: session_sync_def hideEndOverlay_def)
  then show ?case by (rule session_sync_startNewGame)
next
  case (pickRegion s rnd r)
  have "session_sync (s\<lparr>currentRegion := r\<rparr>)"
    using pickRegion.IH by (simp add: session_sync_def)
  then show ?case by (simp add: chooseRegion_def session_sync_startNewGame)
next
  case (pickMode s rnd m)
  have "session_sync (s\<lparr>currentMode := m\<rparr>)"
    using pickMode.IH by (simp add: session_sync_def)
  then show ?case by (simp add: setModeAndStart_def session_sync_startNewGame)
next
  case (dismiss s)
  then show ?case by (simp add: session_sync_def hideEndOverlay_def)
qed

lemma startNewGame_fresh:
  assumes "getRegionPool SONGS (currentRegion s) \<noteq> []"
  shows "roundFresh (startNewGame rnd SONGS s)" and "scoreCorrect (startNewGame rnd SONGS s) = 0"
  by (simp_all add: startNewGame_started [OF assms] roundFresh_def)

lemma goToNextRound_fresh:
  assumes "hasAnswered s" and "\<not> gameComplete s"
    and "sessionIndex s + 1 < length (sessionSongs s)"
  shows "roundFresh (goToNextRound s)"
    and "currentSong (goToNextRound s) = Some (sessionSongs s ! (sessionIndex s + 1))"
    and "scoreCorrect (goToNextRound s) = scoreCorrect s"
proof -
  have "roundsAnswered s < TOTAL_ROUNDS"
    using assms(2) by (simp add: gameComplete_def)
  then have "goToNextRound s =
     s\<lparr>sessionIndex := sessionIndex s + 1,
       currentSong := Some (sessionSongs s ! (sessionIndex s + 1)), hasAnswered := False,
       hadWrongGuess := False, nextBtnDisabled := True\<rparr>"
    using assms(1,3) by (simp add: goToNextRound_draws)
  then show "roundFresh (goToNextRound s)"
    and "currentSong (goToNextRound s) = Some (sessionSongs s ! (sessionIndex s + 1))"
    and "scoreCorrect (goToNextRound s) = scoreCorrect s"
    by (simp_all add: roundFresh_def)
qed

lemma perform_in_open_round:
  assumes "currentSong s = Some cur" and "\<not> hasAnswered s" and "\<not> rightGuess cur c"
  shows "perform c s = s\<lparr>hadWrongGuess := hadWrongGuess s \<or> wrongGuess cur c\<rparr>"
proof (cases c)
  case Next
  then show ?thesis
    using assms(2) by (simp add: goToNextRound_def)
next
  case (Answer songObj)
  show ?thesis
  proof (cases songObj)
    case None
    then show ?thesis
      using Answer assms(1) by (simp add: handleAnswer_def)
  next
    case (Some obj)
    then have "commonName obj \<noteq> commonName cur"
      using Answer assms(3) by simp
    then show ?thesis
      using Answer Some assms(1,2) by (simp add: handleAnswer_def)
  qed
qed

lemma clicks_in_open_round:
  assumes "currentSong s = Some cur" and "\<not> hasAnswered s"
    and "list_all (\<lambda>c. \<not> rightGuess cur c) cs"
  shows "clicks cs s = s\<lparr>hadWrongGuess := hadWrongGuess s \<or> list_ex (wrongGuess cur) cs\<rparr>"
  using assms
proof (induction cs arbitrary: s)
  case Nil
  then show ?case by simp
next
  case (Cons c cs)
  let ?t = "s\<lparr>hadWrongGuess := hadWrongGuess s \<or> wrongGuess cur c\<rparr>"
  have step: "perform c s = ?t"
    using Cons.prems by (simp add: perform_in_open_round)
  have "clicks cs ?t = ?t\<lparr>hadWrongGuess := hadWrongGuess ?t \<or> list_ex (wrongGuess cur) cs\<rparr>"
    using Cons.prems by (intro Cons.IH) simp_all
  then show ?case
    by (simp add: step)
qed

lemma answer_after_guesses:
  assumes fresh: "roundFresh s" and cur: "currentSong s = Some cur"
    and none_right: "list_all (\<lambda>c. \<not> rightGuess cur c) cs"
    and right: "commonName obj = commonName cur"
  shows "clicks cs s = s\<lparr>hadWrongGuess := list_ex (wrongGuess cur) cs\<rparr>"
    and "handleAnswer (Some obj) (clicks cs s) =
      (let s2 = s\<lparr>hadWrongGuess := list_ex (wrongGuess cur) cs, hasAnswered := True,
                   roundsAnswered := roundsAnswered s + 1,
                   scoreCorrect := (if list_ex (wrongGuess cur) cs then scoreCorrect s
                                    else scoreCorrect s + 1)\<rparr>
       in if roundsAnswered s + 1 \<ge> TOTAL_ROUNDS
          then s2\<lparr>nextBtnDisabled := True, endOverlayShown := True\<rparr>
          else s2\<lparr>nextBtnDisabled := False\<rparr>)"
proof -
  have op: "\<not> hasAnswered s" and nw: "\<not> hadWrongGuess s"
    using fresh by (simp_all add: roundFresh_def)
  show t: "clicks cs s = s\<lparr>hadWrongGuess := list_ex (wrongGuess cur) cs\<rparr>"
    using clicks_in_open_round [OF cur op none_right] nw by simp
  have "answersCorrectly (Some obj) (s\<lparr>hadWrongGuess := list_ex (wrongGuess cur) cs\<rparr>)"
    using cur op right by (simp add: answersCorrectly_def)
  then show "handleAnswer (Some obj) (clicks cs s) =
      (let s2 = s\<lparr>hadWrongGuess := list_ex (wrongGuess cur) cs, hasAnswered := True,
                   roundsAnswered := roundsAnswered s + 1,
                   scoreCorrect := (if list_ex (wrongGuess cur) cs then scoreCorrect s
                                    else scoreCorrect s + 1)\<rparr>
       in if roundsAnswered s + 1 \<ge> TOTAL_ROUNDS
          then s2\<lparr>nextBtnDisabled := True, endOverlayShown := True\<rparr>
          else s2\<lparr>nextBtnDisabled := False\<rparr>)"
    by (simp only: t) (simp add: handleAnswer_correct Let_def)
qed

lemma next_song_in_full_session:
  assumes "session_sync s" and "roundFresh s" and "roundsAnswered s + 1 < TOTAL_ROUNDS"
    and "TOTAL_ROUNDS \<le> length (sessionSongs s)"
  shows "sessionIndex s + 1 < length (sessionSongs s)"
  using assms by (auto simp: session_sync_def roundFresh_def)

lemma secondRound_eq:
  "secondRound =
     \<lparr>currentMode = MODES_SPECTRO, currentRegion = None,
      sessionSongs = [swamp_cicada, thirteen_year_cicada, meadow_grasshopper,
        four_spotted_tree_cricket, european_mole_cricket],
      sessionIndex = 1, currentSong = Some thirteen_year_cicada, roundsAnswered = 1,
      scoreCorrect = 0, hasAnswered = False, hadWrongGuess = False, nextBtnDisabled = True,
      endOverlayShown = False\<rparr>"
  by (simp add: secondRound_def firstRound_eq handleAnswer_def goToNextRound_def
      renderRound_def names_differ TOTAL_ROUNDS_def Let_def)

lemma reachable_secondRound: "reachable SONGS_DATA secondRound"
  unfolding secondRound_def by (rule reachable_clicks) (rule reachable_firstRound)

text \<open>
  Claim C2. In every reachable state the score is at most 5 (and, a natural number, at
  least 0). Within a game no click lowers it: an answer leaves it or raises it, an advance
  leaves it. Every round is opened fresh, with no wrong guess recorded: by
  \<^verbatim>\<open>startNewGame\<close>, which also resets the score, and by every advance that finds a
  next song. From a fresh round, after any clicks that do not submit the current song's
  name, the round is still open and the score unchanged, and a wrong guess is recorded
  exactly if one of these clicks submitted another name. The correct answer that follows
  raises the score by exactly 1 if no such wrong guess came before it in the round, and
  leaves the score unchanged otherwise; in both cases it resolves the round and counts it.
  While rounds remain it enables the next button, and the advance then opens a fresh round
  on the next song of the session, whenever the session has a next song, as it always has
  in a session of five songs. The same in terms of the recorded flag: a correct answer
  adds 1 exactly if the flag is unset; a wrong answer leaves the score and the round
  counter, sets the flag and keeps the round open.
\<close>

theorem score_counts_first_try_only:
  assumes "reachable SONGS s"
  shows "scoreCorrect s \<le> 5 \<and>
    scoreCorrect s \<le> scoreCorrect (handleAnswer songObj s) \<and>
    scoreCorrect (goToNextRound s) = scoreCorrect s \<and>
    (getRegionPool SONGS (currentRegion s) \<noteq> [] \<longrightarrow>
       roundFresh (startNewGame rnd SONGS s) \<and> scoreCorrect (startNewGame rnd SONGS s) = 0) \<and>
    (hasAnswered s \<and> \<not> gameComplete s \<and> sessionIndex s + 1 < length (sessionSongs s) \<longrightarrow>
       roundFresh (goToNextRound s) \<and>
       currentSong (goToNextRound s) = Some (sessionSongs s ! (sessionIndex s + 1))) \<and>
    (roundFresh s \<and> currentSong s = Some cur \<and> list_all (\<lambda>c. \<not> rightGuess cur c) cs \<and>
     commonName obj = commonName cur \<longrightarrow>
       \<not> hasAnswered (clicks cs s) \<and> scoreCorrect (clicks cs s) = scoreCorrect s \<and>
       hadWrongGuess (clicks cs s) = list_ex (wrongGuess cur) cs \<and>
       scoreCorrect (handleAnswer (Some obj) (clicks cs s)) =
         (if list_ex (wrongGuess cur) cs then scoreCorrect s else scoreCorrect s + 1) \<and>
       hasAnswered (handleAnswer (Some obj) (clicks cs s)) \<and>
       roundsAnswered (handleAnswer (Some obj) (clicks cs s)) = roundsAnswered s + 1 \<and>
       (roundsAnswered s + 1 < TOTAL_ROUNDS \<longrightarrow>
          \<not> nextBtnDisabled (handleAnswer (Some obj) (clicks cs s)) \<and>
          (sessionIndex s + 1 < length (sessionSongs s) \<or>
           TOTAL_ROUNDS \<le> length (sessionSongs s) \<longrightarrow>
             roundFresh (goToNextRound (handleAnswer (Some obj) (clicks cs s))) \<and>
             currentSong (goToNextRound (handleAnswer (Some obj) (clicks cs s))) =
               Some (sessionSongs s ! (sessionIndex s + 1)) \<and>
             scoreCorrect (goToNextRound (handleAnswer (Some obj) (clicks cs s))) =
               scoreCorrect (handleAnswer (Some obj) (clicks cs s))))) \<and>
    (answersCorrectly songObj s \<longrightarrow>
       scoreCorrect (handleAnswer songObj s) =
         (if hadWrongGuess s then scoreCorrect s else scoreCorrect s + 1) \<and>
       hasAnswered (handleAnswer songObj s) \<and>
       roundsAnswered (handleAnswer songObj s) = roundsAnswered s + 1 \<and>
       (roundsAnswered (handleAnswer songObj s) < TOTAL_ROUNDS \<longrightarrow>
          \<not> nextBtnDisabled (handleAnswer songObj s) \<and>
          sessionIndex (goToNextRound (handleAnswer songObj s)) = sessionIndex s + 1)) \<and>
    (answersWrongly songObj s \<longrightarrow>
       scoreCorrect (handleAnswer songObj s) = scoreCorrect s \<and>
       hadWrongGuess (handleAnswer songObj s) \<and>
       \<not> hasAnswered (handleAnswer songObj s) \<and>
       roundsAnswered (handleAnswer songObj s) = roundsAnswered s)"
proof -
  have bound: "scoreCorrect s \<le> 5"
    using reachable_session_ok [OF assms] by (simp add: session_ok_def TOTAL_ROUNDS_def)
  note sync = reachable_session_sync [OF assms]
  have start: "getRegionPool SONGS (currentRegion s) \<noteq> [] \<longrightarrow>
       roundFresh (startNewGame rnd SONGS s) \<and> scoreCorrect (startNewGame rnd SONGS s) = 0"
    using startNewGame_fresh by blast
  have opens: "hasAnswered s \<and> \<not> gameComplete s \<and> sessionIndex s + 1 < length (sessionSongs s) \<longrightarrow>
       roundFresh (goToNextRound s) \<and>
       currentSong (goToNextRound s) = Some (sessionSongs s ! (sessionIndex s + 1))"
    using goToNextRound_fresh by blast
  have round: "roundFresh s \<and> currentSong s = Some cur \<and> list_all (\<lambda>c. \<not> rightGuess cur c) cs \<and>
     commonName obj = commonName cur \<longrightarrow>
       \<not> hasAnswered (clicks cs s) \<and> scoreCorrect (clicks cs s) = scoreCorrect s \<and>
       hadWrongGuess (clicks cs s) = list_ex (wrongGuess cur) cs \<and>
       scoreCorrect (handleAnswer (Some obj) (clicks cs s)) =
         (if list_ex (wrongGuess cur) cs then scoreCorrect s else scoreCorrect s + 1) \<and>
       hasAnswered (handleAnswer (Some obj) (clicks cs s)) \<and>
       roundsAnswered (handleAnswer (Some obj) (clicks cs s)) = roundsAnswered s + 1 \<and>
       (roundsAnswered s + 1 < TOTAL_ROUNDS \<longrightarrow>
          \<not> nextBtnDisabled (handleAnswer (Some obj) (clicks cs s)) \<and>
          (sessionIndex s + 1 < length (sessionSongs s) \<or>
           TOTAL_ROUNDS \<le> length (sessionSongs s) \<longrightarrow>
             roundFresh (goToNextRound (handleAnswer (Some obj) (clicks cs s))) \<and>
             currentSong (goToNextRound (handleAnswer (Some obj) (clicks cs s))) =
               Some (sessionSongs s ! (sessionIndex s + 1)) \<and>
             scoreCorrect (goToNextRound (handleAnswer (Some obj) (clicks cs s))) =
               scoreCorrect (handleAnswer (Some obj) (clicks cs s))))"
  proof
    assume h: "roundFresh s \<and> currentSong s = Some cur \<and>
      list_all (\<lambda>c. \<not> rightGuess cur c) cs \<and> commonName obj = commonName cur"
    then have fresh: "roundFresh s" and cur: "currentSong s = Some cur"
      and nr: "list_all (\<lambda>c. \<not> rightGuess cur c) cs" and right: "commonName obj = commonName cur"
      by blast+
    let ?t = "clicks cs s"
    let ?u = "handleAnswer (Some obj) ?t"
    note t = answer_after_guesses(1) [OF fresh cur nr right]
    note u = answer_after_guesses(2) [OF fresh cur nr right]
    have op: "\<not> hasAnswered s"
      using fresh by (simp add: roundFresh_def)
    have t1: "\<not> hasAnswered ?t" and t2: "scoreCorrect ?t = scoreCorrect s"
      and t3: "hadWrongGuess ?t = list_ex (wrongGuess cur) cs"
      using op by (simp_all add: t)
    have u1: "scoreCorrect ?u =
        (if list_ex (wrongGuess cur) cs then scoreCorrect s else scoreCorrect s + 1)"
      and u2: "hasAnswered ?u" and u3: "roundsAnswered ?u = roundsAnswered s + 1"
      and u4: "roundsAnswered s + 1 < TOTAL_ROUNDS \<longrightarrow> \<not> nextBtnDisabled ?u"
      and u5: "sessionIndex ?u = sessionIndex s" and u6: "sessionSongs ?u = sessionSongs s"
      by (simp_all add: u Let_def)
    have adv: "roundsAnswered s + 1 < TOTAL_ROUNDS \<longrightarrow>
        (sessionIndex s + 1 < length (sessionSongs s) \<or>
         TOTAL_ROUNDS \<le> length (sessionSongs s) \<longrightarrow>
           roundFresh (goToNextRound ?u) \<and>
           currentSong (goToNextRound ?u) = Some (sessionSongs s ! (sessionIndex s + 1)) \<and>
           scoreCorrect (goToNextRound ?u) = scoreCorrect ?u)"
    proof (intro impI)
      assume more: "roundsAnswered s + 1 < TOTAL_ROUNDS"
      assume "sessionIndex s + 1 < length (sessionSongs s) \<or>
         TOTAL_ROUNDS \<le> length (sessionSongs s)"
      then have nxt: "sessionIndex s + 1 < length (sessionSongs s)"
        using next_song_in_full_session [OF sync fresh more] by blast
      have nc: "\<not> gameComplete ?u"
        using more by (simp add: gameComplete_def u3)
      have nxt': "sessionIndex ?u + 1 < length (sessionSongs ?u)"
        using nxt by (simp only: u5 u6)
      from goToNextRound_fresh [OF u2 nc nxt']
      show "roundFresh (goToNextRound ?u) \<and>
           currentSong (goToNextRound ?u) = Some (sessionSongs s ! (sessionIndex s + 1)) \<and>
           scoreCorrect (goToNextRound ?u) = scoreCorrect ?u"
        by (simp only: u5 u6)
    qed
    from t1 t2 t3 u1 u2 u3 u4 adv
    show "\<not> hasAnswered ?t \<and> scoreCorrect ?t = scoreCorrect s \<and>
       hadWrongGuess ?t = list_ex (wrongGuess cur) cs \<and>
       scoreCorrect ?u =
         (if list_ex (wrongGuess cur) cs then scoreCorrect s else scoreCorrect s + 1) \<and>
       hasAnswered ?u \<and>
       roundsAnswered ?u = roundsAnswered s + 1 \<and>
       (roundsAnswered s + 1 < TOTAL_ROUNDS \<longrightarrow>
          \<not> nextBtnDisabled ?u \<and>
          (sessionIndex s + 1 < length (sessionSongs s) \<or>
           TOTAL_ROUNDS \<le> length (sessionSongs s) \<longrightarrow>
             roundFresh (goToNextRound ?u) \<and>
             currentSong (goToNextRound ?u) = Some (sessionSongs s ! (sessionIndex s + 1)) \<and>
             scoreCorrect (goToNextRound ?u) = scoreCorrect ?u))"
      by blast
  qed
  have right: "answersCorrectly songObj s \<longrightarrow>
       scoreCorrect (handleAnswer songObj s) =
         (if hadWrongGuess s then scoreCorrect s else scoreCorrect s + 1) \<and>
       hasAnswered (handleAnswer songObj s) \<and>
       roundsAnswered (handleAnswer songObj s) = roundsAnswered s + 1 \<and>
       (roundsAnswered (handleAnswer songObj s) < TOTAL_ROUNDS \<longrightarrow>
          \<not> nextBtnDisabled (handleAnswer songObj s) \<and>
          sessionIndex (goToNextRound (handleAnswer songObj s)) = sessionIndex s + 1)"
  proof
    assume c: "answersCorrectly songObj s"
    have sc: "scoreCorrect (handleAnswer songObj s) =
         (if hadWrongGuess s then scoreCorrect s else scoreCorrect s + 1)"
      and ha: "hasAnswered (handleAnswer songObj s)"
      and ra: "roundsAnswered (handleAnswer songObj s) = roundsAnswered s + 1"
      and nb: "roundsAnswered (handleAnswer songObj s) < TOTAL_ROUNDS \<longrightarrow>
          \<not> nextBtnDisabled (handleAnswer songObj s)"
      and ix: "sessionIndex (handleAnswer songObj s) = sessionIndex s"
      by (simp_all add: handleAnswer_correct [OF c] Let_def)
    have "roundsAnswered (handleAnswer songObj s) < TOTAL_ROUNDS \<longrightarrow>
        sessionIndex (goToNextRound (handleAnswer songObj s)) = sessionIndex s + 1"
      using goToNextRound_advances [OF ha] ix by simp
    with sc ha ra nb
    show "scoreCorrect (handleAnswer songObj s) =
         (if hadWrongGuess s then scoreCorrect s else scoreCorrect s + 1) \<and>
       hasAnswered (handleAnswer songObj s) \<and>
       roundsAnswered (handleAnswer songObj s) = roundsAnswered s + 1 \<and>
       (roundsAnswered (handleAnswer songObj s) < TOTAL_ROUNDS \<longrightarrow>
          \<not> nextBtnDisabled (handleAnswer songObj s) \<and>
          sessionIndex (goToNextRound (handleAnswer songObj s)) = sessionIndex s + 1)"
      by blast
  qed
  have wrong: "answersWrongly songObj s \<longrightarrow>
       scoreCorrect (handleAnswer songObj s) = scoreCorrect s \<and>
       hadWrongGuess (handleAnswer songObj s) \<and>
       \<not> hasAnswered (handleAnswer songObj s) \<and>
       roundsAnswered (handleAnswer songObj s) = roundsAnswered s"
  proof
    assume w: "answersWrongly songObj s"
    then have "\<not> hasAnswered s"
      by (simp add: answersWrongly_def split: option.splits)
    then show "scoreCorrect (handleAnswer songObj s) = scoreCorrect s \<and>
       hadWrongGuess (handleAnswer songObj s) \<and>
       \<not> hasAnswered (handleAnswer songObj s) \<and>
       roundsAnswered (handleAnswer songObj s) = roundsAnswered s"
      by (simp add: handleAnswer_wrong [OF w])
  qed
  from bound scoreCorrect_handleAnswer_mono [of s songObj] scoreCorrect_goToNextRound [of s]
    start opens round right wrong
  show ?thesis by blast
qed

theorem score_counts_first_try_only_witness:
  "reachable SONGS_DATA firstRound \<and> roundFresh firstRound \<and>
   currentSong firstRound = Some swamp_cicada \<and>
   list_all (\<lambda>c. \<not> rightGuess swamp_cicada c)
     [Answer (Some meadow_grasshopper), Next, Answer None] \<and>
   list_ex (wrongGuess swamp_cicada) [Answer (Some meadow_grasshopper), Next, Answer None] \<and>
   scoreCorrect (handleAnswer (Some swamp_cicada)
     (clicks [Answer (Some meadow_grasshopper), Next, Answer None] firstRound)) = 0 \<and>
   roundFresh (goToNextRound (handleAnswer (Some swamp_cicada)
     (clicks [Answer (Some meadow_grasshopper), Next, Answer None] firstRound))) \<and>
   currentSong (goToNextRound (handleAnswer (Some swamp_cicada)
     (clicks [Answer (Some meadow_grasshopper), Next, Answer None] firstRound))) =
     Some thirteen_year_cicada \<and>
   scoreCorrect (handleAnswer (Some swamp_cicada) (clicks [] firstRound)) = 1 \<and>
   reachable SONGS_DATA secondRound \<and> roundFresh secondRound \<and>
   currentSong secondRound = Some thirteen_year_cicada \<and> scoreCorrect secondRound = 0 \<and>
   scoreCorrect (handleAnswer (Some thirteen_year_cicada) (clicks [] secondRound)) = 1 \<and>
   getRegionPool SONGS_DATA (currentRegion secondRound) \<noteq> [] \<and>
   roundFresh (startNewGame sampleKeys SONGS_DATA secondRound) \<and>
   answersCorrectly (Some thirteen_year_cicada) secondRound \<and>
   scoreCorrect (handleAnswer (Some thirteen_year_cicada) secondRound) = 1 \<and>
   answersWrongly (Some swamp_cicada) secondRound \<and>
   hadWrongGuess (handleAnswer (Some swamp_cicada) secondRound) \<and>
   scoreCorrect (handleAnswer (Some swamp_cicada) secondRound) = 0"
proof -
  let ?cs = "[Answer (Some meadow_grasshopper), Next, Answer None]"
  let ?u = "handleAnswer (Some swamp_cicada) (clicks ?cs firstRound)"
  note r1 = reachable_firstRound and r2 = reachable_secondRound
  have f1: "roundFresh firstRound" and c1: "currentSong firstRound = Some swamp_cicada"
    and sc1: "scoreCorrect firstRound = 0" and ra1: "roundsAnswered firstRound = 0"
    and ix1: "sessionIndex firstRound = 0"
    and q1: "sessionSongs firstRound = [swamp_cicada, thirteen_year_cicada, meadow_grasshopper,
        four_spotted_tree_cricket, european_mole_cricket]"
    by (simp_all add: firstRound_eq roundFresh_def)
  have nr: "list_all (\<lambda>c. \<not> rightGuess swamp_cicada c) ?cs"
    and ex: "list_ex (wrongGuess swamp_cicada) ?cs"
    by (simp_all add: names_differ)
  have nr0: "list_all (\<lambda>c. \<not> rightGuess cur c) []" for cur
    by simp
  have f2: "roundFresh secondRound" and c2: "currentSong secondRound = Some thirteen_year_cicada"
    and sc2: "scoreCorrect secondRound = 0"
    and p2: "getRegionPool SONGS_DATA (currentRegion secondRound) \<noteq> []"
    and ac2: "answersCorrectly (Some thirteen_year_cicada) secondRound"
    by (simp_all add: secondRound_eq roundFresh_def pool_all SONGS_DATA_not_Nil
        answersCorrectly_def)
  have aw2: "answersWrongly (Some swamp_cicada) secondRound"
    by (simp add: secondRound_eq answersWrongly_def catalog_names js_def)
  have nw2: "\<not> hadWrongGuess secondRound"
    by (simp add: secondRound_eq)
  from score_counts_first_try_only
    [OF r1, where cur = swamp_cicada and cs = ?cs and obj = swamp_cicada]
    f1 c1 nr ex sc1 ra1 ix1
  have a: "scoreCorrect ?u = 0" and b: "roundFresh (goToNextRound ?u)"
    and c: "currentSong (goToNextRound ?u) = Some thirteen_year_cicada"
    by (simp_all add: q1 TOTAL_ROUNDS_def)
  from score_counts_first_try_only
    [OF r1, where cur = swamp_cicada and cs = "[]" and obj = swamp_cicada] f1 c1 sc1
  have d: "scoreCorrect (handleAnswer (Some swamp_cicada) (clicks [] firstRound)) = 1"
    by simp
  from score_counts_first_try_only
    [OF r2, where cur = thirteen_year_cicada and cs = "[]" and obj = thirteen_year_cicada
      and rnd = sampleKeys and songObj = "Some thirteen_year_cicada"]
    f2 c2 sc2 p2 ac2 nw2
  have e: "scoreCorrect (handleAnswer (Some thirteen_year_cicada) (clicks [] secondRound)) = 1"
    and f: "roundFresh (startNewGame sampleKeys SONGS_DATA secondRound)"
    and g: "scoreCorrect (handleAnswer (Some thirteen_year_cicada) secondRound) = 1"
    by simp_all
  from score_counts_first_try_only [OF r2, where songObj = "Some swamp_cicada"] aw2 sc2
  have h: "hadWrongGuess (handleAnswer (Some swamp_cicada) secondRound)"
    and i: "scoreCorrect (handleAnswer (Some swamp_cicada) secondRound) = 0"
    by simp_all
  from r1 f1 c1 nr ex a b c d r2 f2 c2 sc2 e p2 f ac2 g aw2 h i show ?thesis
    by blast
qed

subsection \<open>How likely each permutation is\<close>



















end
